theory Spec2Isabelle
  imports Complex_Main
begin

section \<open>The sampling engine of the system monitor\<close>

text \<open>
  The engine is the method \<open>JarvisMonitor.update_stats\<close> of \<open>system_monitor.py\<close>
  together with the part of \<open>__init__\<close> and of the label creation that sets up the
  state it works on. One call of \<open>update_stats\<close> is one tick.

  Conventions of the embedding:
  \<^item> Python floats are modelled as \<open>real\<close>, integers as \<open>int\<close>; rounding of floating
    point arithmetic is not modelled.
  \<^item> A \<open>datetime\<close> is the number of microseconds since the epoch, so that
    \<open>(a - b).total_seconds()\<close> is \<open>(a - b) / 10^6\<close>.
  \<^item> Every call into \<open>psutil\<close> either returns a value or raises; the outcome of each
    call made during one tick is an input of the tick (record \<open>os_reads\<close>). A call that
    the source makes twice in one tick (\<open>psutil.cpu_freq()\<close>) gives the same outcome
    both times.
  \<^item> The text of a label is kept as a list of pieces, so that the formatting of a float
    (\<open>f"{x:.1f}"\<close>) is a piece of its own and not a decimal expansion.
  \<^item> Tk widget calls (\<open>config\<close>, canvas drawing) do not raise.
\<close>

subsection \<open>Values\<close>

text \<open>
  Exceptions. The first five are subclasses of \<open>Exception\<close>; \<open>KeyboardInterrupt\<close> and
  \<open>SystemExit\<close> derive from \<open>BaseException\<close> only, so \<open>except Exception\<close> does not catch them
  while a bare \<open>except:\<close> does. \<open>psutil.cpu_percent(interval=0.1)\<close> sleeps for most of a tick,
  so an interrupt arrives there as an exception of that call.
\<close>

datatype exn =
    AccessDenied | NoSuchProcess | OSError | TypeError | ZeroDivisionError
  | KeyboardInterrupt | SystemExit

fun is_Exception :: "exn \<Rightarrow> bool" where
  "is_Exception KeyboardInterrupt = False"
| "is_Exception SystemExit = False"
| "is_Exception e = True"

datatype piece =
    Lit string
  | Fixed nat real
  | Repr real
  | Dec int
  | NoneRepr
  | Strftime int
  | ExnRepr exn
  | HighVoltage

type_synonym ptext = "piece list"

record snetio =
  bytes_sent :: int
  bytes_recv :: int

record svmem =
  vm_total :: int
  vm_used :: int
  vm_percent :: real

record sbattery =
  bat_percent :: real
  power_plugged :: "bool option"

record proc_info =
  info_name :: "string option"
  info_cpu_percent :: "real option"

record os_reads =
  cpu_percent :: "exn + real"
  cpu_count :: "exn + int option"
  cpu_freq :: "exn + real option"
  virtual_memory :: "exn + svmem"
  platform_system :: "exn + string"
  platform_machine :: "exn + string"
  now :: int
  net_io_counters :: "exn + snetio"
  swap_memory :: "exn + real"
  pids :: "exn + int list"
  sensors_battery :: "exn + sbattery option"
  process_iter :: "exn + proc_info list"
  memory_info_rss :: "exn + int"

subsection \<open>collections.deque with maxlen\<close>

datatype 'a deque = Deque (items: "'a list") (maxlen: nat)

definition deque_new :: "'a list \<Rightarrow> nat \<Rightarrow> 'a deque" where
  "deque_new xs n = Deque (drop (length xs - n) xs) n"

definition deque_append :: "'a deque \<Rightarrow> 'a \<Rightarrow> 'a deque" where
  "deque_append d v =
     (let ys = items d @ [v]
      in Deque (if maxlen d < length ys then tl ys else ys) (maxlen d))"

subsection \<open>The monitor object\<close>

datatype callback = Update_stats

record monitor =
  last_net_io :: snetio
  last_update :: int
  max_data_points :: nat
  cpu_history :: "real deque"
  mem_history :: "real deque"
  net_up_history :: "real deque"
  net_down_history :: "real deque"
  cpu_canvas :: "real option"
  mem_canvas :: "real option"
  net_canvas :: "(real list \<times> real list) option"
  cpu_value_label :: ptext
  cpu_detail_label :: ptext
  mem_value_label :: ptext
  mem_detail_label :: ptext
  gpu_value_label :: ptext
  gpu_detail_label :: ptext
  net_up_label :: ptext
  net_down_label :: ptext
  total_tx_label :: ptext
  total_rx_label :: ptext
  swap_label :: ptext
  proc_count_label :: ptext
  battery_label :: ptext
  top_proc_label :: ptext
  time_label :: ptext
  proc_mem_label :: ptext
  stdout :: "ptext list"
  timers :: "(nat \<times> callback) list"

text \<open>
  The state after \<open>__init__\<close> and \<open>setup_ui\<close>, before the first tick. \<open>__init__\<close> reads
  the network counters and the clock once; \<open>io0\<close> and \<open>t0\<close> are what it read.
\<close>

definition init :: "snetio \<Rightarrow> int \<Rightarrow> monitor" where
  "init io0 t0 =
     \<lparr> last_net_io = io0,
       last_update = t0,
       max_data_points = 60,
       cpu_history = deque_new (replicate 60 0) 60,
       mem_history = deque_new (replicate 60 0) 60,
       net_up_history = deque_new (replicate 60 0) 60,
       net_down_history = deque_new (replicate 60 0) 60,
       cpu_canvas = None,
       mem_canvas = None,
       net_canvas = None,
       cpu_value_label = [Lit ''0%''],
       cpu_detail_label = [],
       mem_value_label = [Lit ''0%''],
       mem_detail_label = [],
       gpu_value_label = [Lit ''ACTIVE''],
       gpu_detail_label = [],
       net_up_label = [Lit ''0 B/s''],
       net_down_label = [Lit ''0 B/s''],
       total_tx_label = [Lit ''0 B''],
       total_rx_label = [Lit ''0 B''],
       swap_label = [Lit ''0%''],
       proc_count_label = [Lit ''0''],
       battery_label = [Lit ''N/A''],
       top_proc_label = [Lit ''...''],
       time_label = [],
       proc_mem_label = [],
       stdout = [],
       timers = [] \<rparr>"

subsection \<open>Formatting\<close>

fun format_bytes_units :: "string list \<Rightarrow> real \<Rightarrow> ptext" where
  "format_bytes_units [] bytes_val = [Fixed 1 bytes_val, Lit '' PB'']"
| "format_bytes_units (unit # units) bytes_val =
     (if bytes_val < 1024 then [Fixed 1 bytes_val, Lit '' '', Lit unit]
      else format_bytes_units units (bytes_val / 1024))"

definition format_bytes :: "real \<Rightarrow> ptext" where
  "format_bytes bytes_val = format_bytes_units [''B'', ''KB'', ''MB'', ''GB'', ''TB''] bytes_val"

definition format_speed :: "real \<Rightarrow> ptext" where
  "format_speed bytes_per_sec =
     (if bytes_per_sec < 1024 then [Fixed 0 bytes_per_sec, Lit '' B/s'']
      else if bytes_per_sec < 1024 * 1024 then [Fixed 1 (bytes_per_sec / 1024), Lit '' KB/s'']
      else [Fixed 1 (bytes_per_sec / (1024 * 1024)), Lit '' MB/s''])"

definition get_gpu_usage :: "os_reads \<Rightarrow> ptext \<times> ptext" where
  "get_gpu_usage os =
     (case platform_system os of
        Inl e \<Rightarrow> ([Lit ''N/A''], [Lit ''Unknown''])
      | Inr system \<Rightarrow>
          (case platform_machine os of
             Inl e \<Rightarrow> ([Lit ''N/A''], [Lit ''Unknown''])
           | Inr machine \<Rightarrow>
               if system = ''Darwin'' then
                 (if machine = ''arm64'' then ([Lit ''ACTIVE''], [Lit ''Apple Silicon''])
                  else ([Lit ''ACTIVE''], [Lit ''Intel GPU'']))
               else if system = ''Windows'' then ([Lit ''ACTIVE''], [Lit ''Windows GPU''])
               else if system = ''Linux'' then ([Lit ''ACTIVE''], [Lit ''Linux GPU''])
               else ([Lit ''ACTIVE''], [Lit ''GPU''])))"

subsection \<open>Python operations that can raise\<close>

definition truediv :: "real \<Rightarrow> real \<Rightarrow> exn + real" where
  "truediv a b = (if b = 0 then Inl ZeroDivisionError else Inr (a / b))"

definition total_seconds :: "int \<Rightarrow> real" where
  "total_seconds micros = real_of_int micros / 1000000"

definition count_repr :: "int option \<Rightarrow> piece" where
  "count_repr c = (case c of None \<Rightarrow> NoneRepr | Some n \<Rightarrow> Dec n)"

subsection \<open>The sections of one tick\<close>

type_synonym step = "monitor \<Rightarrow> exn option \<times> monitor"

definition then_section :: "step \<Rightarrow> step \<Rightarrow> step" where
  "then_section f g m = (case f m of (None, m') \<Rightarrow> g m' | (Some e, m') \<Rightarrow> (Some e, m'))"

definition cpu_section :: "os_reads \<Rightarrow> step" where
  "cpu_section os m =
     (case cpu_percent os of
        Inl e \<Rightarrow> (Some e, m)
      | Inr c \<Rightarrow>
          (let m1 = m\<lparr> cpu_history := deque_append (cpu_history m) c,
                       cpu_canvas := Some c,
                       cpu_value_label := [Fixed 1 c, Lit ''%''] \<rparr>
           in case cpu_freq os of
                Inl e \<Rightarrow> (Some e, m1)
              | Inr None \<Rightarrow>
                  (case cpu_count os of
                     Inl e \<Rightarrow> (Some e, m1)
                   | Inr n \<Rightarrow> (None, m1\<lparr> cpu_detail_label := [count_repr n, Lit '' CORES''] \<rparr>))
              | Inr (Some mhz) \<Rightarrow>
                  (case cpu_count os of
                     Inl e \<Rightarrow> (Some e, m1)
                   | Inr n \<Rightarrow>
                       (None, m1\<lparr> cpu_detail_label :=
                                 [count_repr n, Lit '' CORES @ '', Fixed 0 mhz, Lit '' MHz''] \<rparr>))))"

definition mem_section :: "os_reads \<Rightarrow> step" where
  "mem_section os m =
     (case virtual_memory os of
        Inl e \<Rightarrow> (Some e, m)
      | Inr mem \<Rightarrow>
          (None, m\<lparr> mem_history := deque_append (mem_history m) (vm_percent mem),
                    mem_canvas := Some (vm_percent mem),
                    mem_value_label := [Fixed 1 (vm_percent mem), Lit ''%''],
                    mem_detail_label :=
                      format_bytes (real_of_int (vm_used mem)) @ [Lit '' / ''] @
                      format_bytes (real_of_int (vm_total mem)) \<rparr>))"

definition gpu_section :: "os_reads \<Rightarrow> step" where
  "gpu_section os m =
     (case get_gpu_usage os of
        (gpu_status, gpu_info) \<Rightarrow>
          (None, m\<lparr> gpu_value_label := gpu_status, gpu_detail_label := gpu_info \<rparr>))"

definition draw_network_graph :: "monitor \<Rightarrow> monitor" where
  "draw_network_graph m =
     m\<lparr> net_canvas := Some (items (net_up_history m), items (net_down_history m)) \<rparr>"

definition net_section :: "os_reads \<Rightarrow> step" where
  "net_section os m =
     (case net_io_counters os of
        Inl e \<Rightarrow> (Some e, m)
      | Inr current_net_io \<Rightarrow>
          (let time_delta = total_seconds (now os - last_update m)
           in if time_delta > 0 then
                (case truediv (real_of_int (bytes_sent current_net_io - bytes_sent (last_net_io m)))
                        time_delta of
                   Inl e \<Rightarrow> (Some e, m)
                 | Inr upload_speed \<Rightarrow>
                     (case truediv (real_of_int (bytes_recv current_net_io - bytes_recv (last_net_io m)))
                             time_delta of
                        Inl e \<Rightarrow> (Some e, m)
                      | Inr download_speed \<Rightarrow>
                          (let m1 = m\<lparr> net_up_history := deque_append (net_up_history m) upload_speed,
                                        net_down_history :=
                                          deque_append (net_down_history m) download_speed,
                                        net_up_label := format_speed upload_speed,
                                        net_down_label := format_speed download_speed,
                                        total_tx_label :=
                                          format_bytes (real_of_int (bytes_sent current_net_io)),
                                        total_rx_label :=
                                          format_bytes (real_of_int (bytes_recv current_net_io)) \<rparr>;
                               m2 = draw_network_graph m1
                           in (None, m2\<lparr> last_net_io := current_net_io, last_update := now os \<rparr>))))
              else (None, m\<lparr> last_net_io := current_net_io, last_update := now os \<rparr>)))"

definition swap_section :: "os_reads \<Rightarrow> step" where
  "swap_section os m =
     (case swap_memory os of
        Inl e \<Rightarrow> (None, m)
      | Inr swap_percent \<Rightarrow> (None, m\<lparr> swap_label := [Repr swap_percent, Lit ''%''] \<rparr>))"

definition proc_count_section :: "os_reads \<Rightarrow> step" where
  "proc_count_section os m =
     (case pids os of
        Inl e \<Rightarrow> (None, m)
      | Inr ps \<Rightarrow> (None, m\<lparr> proc_count_label := [Dec (int (length ps))] \<rparr>))"

definition battery_section :: "os_reads \<Rightarrow> step" where
  "battery_section os m =
     (case sensors_battery os of
        Inl e \<Rightarrow> (None, m\<lparr> battery_label := [Lit ''N/A''] \<rparr>)
      | Inr None \<Rightarrow> (None, m\<lparr> battery_label := [Lit ''AC''] \<rparr>)
      | Inr (Some battery) \<Rightarrow>
          (let status = (if power_plugged battery = Some True then [HighVoltage] else [])
           in (None, m\<lparr> battery_label := [Fixed 0 (bat_percent battery), Lit ''%''] @ status \<rparr>)))"

subsection \<open>Selecting the top process\<close>

fun name_cpu_pairs :: "proc_info list \<Rightarrow> exn + (string \<times> real option) list" where
  "name_cpu_pairs [] = Inr []"
| "name_cpu_pairs (p # ps) =
     (case info_name p of
        None \<Rightarrow> Inl TypeError
      | Some n \<Rightarrow>
          (case name_cpu_pairs ps of
             Inl e \<Rightarrow> Inl e
           | Inr rest \<Rightarrow> Inr ((take 10 n, info_cpu_percent p) # rest)))"

definition cpu_key :: "string \<times> real option \<Rightarrow> real" where
  "cpu_key x = (case snd x of None \<Rightarrow> 0 | Some c \<Rightarrow> c)"

text \<open>
  \<open>sorted(procs, key=lambda x: x[1], reverse=True)\<close>. Python's sort is stable, and with
  \<open>reverse=True\<close> it still keeps the original order of equal keys: the list is reversed,
  sorted stably in ascending order, and reversed again. Comparing \<open>None\<close> with a number or
  with \<open>None\<close> raises \<open>TypeError\<close>; a list shorter than two is not compared at all.
\<close>

definition sorted_reverse :: "(string \<times> real option) list \<Rightarrow> exn + (string \<times> real option) list" where
  "sorted_reverse xs =
     (if length xs < 2 then Inr xs
      else if list_ex (\<lambda>x. snd x = None) xs then Inl TypeError
      else Inr (rev (sort_key cpu_key (rev xs))))"

definition top_cpu_process :: "proc_info list \<Rightarrow> exn + string option" where
  "top_cpu_process table =
     (case name_cpu_pairs table of
        Inl e \<Rightarrow> Inl e
      | Inr procs \<Rightarrow>
          (case sorted_reverse procs of
             Inl e \<Rightarrow> Inl e
           | Inr sorted_procs \<Rightarrow>
               (case take 1 sorted_procs of
                  [] \<Rightarrow> Inr None
                | p # _ \<Rightarrow>
                    (case snd p of
                       None \<Rightarrow> Inl TypeError
                     | Some c \<Rightarrow> if c > 0 then Inr (Some (fst p)) else Inr None))))"

definition top_proc_section :: "os_reads \<Rightarrow> step" where
  "top_proc_section os m =
     (case process_iter os of
        Inl e \<Rightarrow> (None, m)
      | Inr table \<Rightarrow>
          (case top_cpu_process table of
             Inl e \<Rightarrow> (None, m)
           | Inr None \<Rightarrow> (None, m)
           | Inr (Some n) \<Rightarrow> (None, m\<lparr> top_proc_label := [Lit n] \<rparr>)))"

definition footer_section :: "os_reads \<Rightarrow> step" where
  "footer_section os m =
     (let m1 = m\<lparr> time_label := [Lit ''SYS.TIME: '', Strftime (now os)] \<rparr>
      in case memory_info_rss os of
           Inl e \<Rightarrow> (Some e, m1)
         | Inr self_mem \<Rightarrow>
             (None, m1\<lparr> proc_mem_label := Lit ''PROC.MEM: '' # format_bytes (real_of_int self_mem) \<rparr>))"

subsection \<open>One tick\<close>

definition stats_body :: "os_reads \<Rightarrow> step" where
  "stats_body os =
     then_section (cpu_section os)
    (then_section (mem_section os)
    (then_section (gpu_section os)
    (then_section (net_section os)
    (then_section (swap_section os)
    (then_section (proc_count_section os)
    (then_section (battery_section os)
    (then_section (top_proc_section os)
                  (footer_section os))))))))"

definition root_after :: "nat \<Rightarrow> callback \<Rightarrow> monitor \<Rightarrow> monitor" where
  "root_after ms cb m = m\<lparr> timers := timers m @ [(ms, cb)] \<rparr>"

text \<open>
  \<open>update_stats\<close>: the body runs inside \<open>try ... except Exception as e: print(...)\<close>, and
  \<open>self.root.after(1000, self.update_stats)\<close> follows the \<open>try\<close> statement. The result is the
  exception that leaves the call, if any, and the monitor as the call leaves it.
\<close>

definition update_stats :: "os_reads \<Rightarrow> monitor \<Rightarrow> exn option \<times> monitor" where
  "update_stats os m =
     (case stats_body os m of
        (None, m') \<Rightarrow> (None, root_after 1000 Update_stats m')
      | (Some e, m') \<Rightarrow>
          if is_Exception e then
            (None, root_after 1000 Update_stats
               (m'\<lparr> stdout := stdout m' @ [[Lit ''Error updating stats: '', ExnRepr e]] \<rparr>))
          else (Some e, m'))"



text \<open>
  Ticks called one after the other, as \<open>initialize_app\<close> calls the first one, each on
  the monitor as the previous call left it, whether that call returned or raised.
\<close>

fun ticks :: "os_reads list \<Rightarrow> monitor \<Rightarrow> monitor" where
  "ticks [] m = m"
| "ticks (os # oss) m = ticks oss (snd (update_stats os m))"


subsection \<open>Auxiliary notions for the statements\<close>

text \<open>All four history deques are at their capacity of 60.\<close>

definition histories_full :: "monitor \<Rightarrow> bool" where
  "histories_full m \<longleftrightarrow>
     length (items (cpu_history m)) = 60 \<and> maxlen (cpu_history m) = 60 \<and>
     length (items (mem_history m)) = 60 \<and> maxlen (mem_history m) = 60 \<and>
     length (items (net_up_history m)) = 60 \<and> maxlen (net_up_history m) = 60 \<and>
     length (items (net_down_history m)) = 60 \<and> maxlen (net_down_history m) = 60"


text \<open>A tick in which every read succeeds, used to instantiate the theorems.\<close>

definition healthy_reads :: os_reads where
  "healthy_reads =
     \<lparr> cpu_percent = Inr 12.5,
       cpu_count = Inr (Some 8),
       cpu_freq = Inr (Some 2400),
       virtual_memory = Inr \<lparr> vm_total = 16000, vm_used = 8000, vm_percent = 50 \<rparr>,
       platform_system = Inr ''Linux'',
       platform_machine = Inr ''x86_64'',
       now = 1000000,
       net_io_counters = Inr \<lparr> bytes_sent = 3000, bytes_recv = 5000 \<rparr>,
       swap_memory = Inr 0,
       pids = Inr [1, 2, 3],
       sensors_battery = Inr None,
       process_iter =
         Inr [\<lparr> info_name = Some ''a'', info_cpu_percent = Some 0 \<rparr>,
              \<lparr> info_name = Some ''b'', info_cpu_percent = Some 5.2 \<rparr>,
              \<lparr> info_name = Some ''c'', info_cpu_percent = Some 5.2 \<rparr>],
       memory_info_rss = Inr 4096 \<rparr>"

definition io_zero :: snetio where
  "io_zero = \<lparr> bytes_sent = 0, bytes_recv = 0 \<rparr>"

text \<open>Process tables used to instantiate the statements on the top-process selection.\<close>

definition table_abc :: "proc_info list" where
  "table_abc =
     [\<lparr> info_name = Some ''a'', info_cpu_percent = Some 0 \<rparr>,
      \<lparr> info_name = Some ''b'', info_cpu_percent = Some 5.2 \<rparr>,
      \<lparr> info_name = Some ''c'', info_cpu_percent = Some 5.2 \<rparr>]"

definition table_denied :: "proc_info list" where
  "table_denied =
     [\<lparr> info_name = Some ''kernel_task'', info_cpu_percent = None \<rparr>,
      \<lparr> info_name = Some ''b'', info_cpu_percent = Some 5.2 \<rparr>]"

definition table_b :: "proc_info list" where
  "table_b = [\<lparr> info_name = Some ''b'', info_cpu_percent = Some 5.2 \<rparr>]"

text \<open>The label shows the first 10 characters of the name of a process of this tick's table.\<close>

definition truncated_name_of :: "os_reads \<Rightarrow> ptext \<Rightarrow> bool" where
  "truncated_name_of os label \<longleftrightarrow>
     (case process_iter os of
        Inl e \<Rightarrow> False
      | Inr table \<Rightarrow>
          list_ex (\<lambda>p. case info_name p of None \<Rightarrow> False
                             | Some n \<Rightarrow> label = [Lit (take 10 n)]) table)"

text \<open>The part of the state that the network section reads and writes.\<close>

definition net_view ::
  "monitor \<Rightarrow> snetio \<times> int \<times> real deque \<times> real deque \<times> ptext \<times> ptext \<times> ptext \<times> ptext" where
  "net_view m =
     (last_net_io m, last_update m, net_up_history m, net_down_history m,
      net_up_label m, net_down_label m, total_tx_label m, total_rx_label m)"

text \<open>Every read made before the network section returns a value.\<close>

definition front_reads_ok :: "os_reads \<Rightarrow> bool" where
  "front_reads_ok os \<longleftrightarrow>
     \<not> isl (cpu_percent os) \<and> \<not> isl (cpu_freq os) \<and> \<not> isl (cpu_count os) \<and>
     \<not> isl (virtual_memory os)"



text \<open>A process table with two readable entries and one whose CPU percentage was denied.\<close>

definition table_partial :: "proc_info list" where
  "table_partial =
     [\<lparr> info_name = Some ''a'', info_cpu_percent = Some 0 \<rparr>,
      \<lparr> info_name = Some ''b'', info_cpu_percent = Some 5.2 \<rparr>,
      \<lparr> info_name = Some ''kernel_task'', info_cpu_percent = None \<rparr>]"

section \<open>Properties\<close>

subsection \<open>Sequencing\<close>


lemma then_section_rel:
  assumes trans: "\<And>a b c. R a b \<Longrightarrow> R b c \<Longrightarrow> R a c"
    and f: "\<And>m. R m (snd (f m))" and g: "\<And>m. R m (snd (g m))"
  shows "R m (snd (then_section f g m))"
proof (cases "f m")
  case (Pair r m')
  have fm: "R m m'" using f [of m] Pair by simp
  show ?thesis
  proof (cases r)
    case None
    then have "then_section f g m = g m'" using Pair by (simp add: then_section_def)
    then show ?thesis using trans [OF fm g [of m']] by simp
  next
    case (Some e)
    then have "then_section f g m = (Some e, m')" using Pair by (simp add: then_section_def)
    then show ?thesis using fm by simp
  qed
qed

lemma stats_body_rel:
  assumes trans: "\<And>a b c. R a b \<Longrightarrow> R b c \<Longrightarrow> R a c"
    and "\<And>m. R m (snd (cpu_section os m))"
    and "\<And>m. R m (snd (mem_section os m))"
    and "\<And>m. R m (snd (gpu_section os m))"
    and "\<And>m. R m (snd (net_section os m))"
    and "\<And>m. R m (snd (swap_section os m))"
    and "\<And>m. R m (snd (proc_count_section os m))"
    and "\<And>m. R m (snd (battery_section os m))"
    and "\<And>m. R m (snd (top_proc_section os m))"
    and "\<And>m. R m (snd (footer_section os m))"
  shows "R m (snd (stats_body os m))"
  unfolding stats_body_def
  by (intro then_section_rel [where R = R] assms(2-); use trans in blast)

lemma update_stats_rel:
  assumes trans: "\<And>a b c. R a b \<Longrightarrow> R b c \<Longrightarrow> R a c"
    and body: "\<And>m. R m (snd (stats_body os m))"
    and out: "\<And>m x. R m (m\<lparr> stdout := x \<rparr>)"
    and tim: "\<And>m x. R m (m\<lparr> timers := x \<rparr>)"
  shows "R m (snd (update_stats os m))"
proof (cases "stats_body os m")
  case (Pair r m')
  have b: "R m m'" using body [of m] Pair by simp
  show ?thesis
  proof (cases r)
    case None
    then have "snd (update_stats os m) = m'\<lparr> timers := timers m' @ [(1000, Update_stats)] \<rparr>"
      using Pair by (simp add: update_stats_def root_after_def)
    then show ?thesis using trans [OF b tim] by simp
  next
    case (Some e)
    show ?thesis
    proof (cases "is_Exception e")
      case True
      then have "snd (update_stats os m) =
          (m'\<lparr> stdout := stdout m' @ [[Lit ''Error updating stats: '', ExnRepr e]] \<rparr>)
            \<lparr> timers := timers m' @ [(1000, Update_stats)] \<rparr>"
        using Pair Some by (simp add: update_stats_def root_after_def)
      then show ?thesis using trans [OF b trans [OF out tim]] by simp
    next
      case False
      then have "snd (update_stats os m) = m'"
        using Pair Some by (simp add: update_stats_def)
      then show ?thesis using b by simp
    qed
  qed
qed


subsection \<open>The history deques\<close>

lemma maxlen_deque_append: "maxlen (deque_append d v) = maxlen d"
  by (simp add: deque_append_def Let_def)

lemma length_deque_append_full:
  "length (items d) = maxlen d \<Longrightarrow> length (items (deque_append d v)) = maxlen d"
  by (simp add: deque_append_def Let_def)

lemma items_deque_append_full:
  "length (items d) = maxlen d \<Longrightarrow> 0 < maxlen d \<Longrightarrow>
   items (deque_append d v) = tl (items d) @ [v]"
  by (cases "items d") (simp_all add: deque_append_def Let_def)

lemma last_deque_append:
  "0 < maxlen d \<Longrightarrow> length (items d) \<le> maxlen d \<Longrightarrow> last (items (deque_append d v)) = v"
  by (cases "items d") (simp_all add: deque_append_def Let_def)

lemma deque_new_replicate: "deque_new (replicate n z) n = Deque (replicate n z) n"
  by (simp add: deque_new_def)

lemma foldl_deque_append_maxlen: "maxlen (foldl deque_append d vs) = maxlen d"
  by (induction vs arbitrary: d) (simp_all add: maxlen_deque_append)

lemma foldl_deque_append_full:
  "length (items d) = maxlen d \<Longrightarrow> length (items (foldl deque_append d vs)) = maxlen d"
  by (induction vs arbitrary: d) (simp_all add: maxlen_deque_append length_deque_append_full)

lemma foldl_deque_append_last:
  assumes "length (items d) = maxlen d" "0 < maxlen d" "vs \<noteq> []"
  shows "last (items (foldl deque_append d vs)) = last vs"
proof -
  obtain ws w where vs: "vs = ws @ [w]" using assms(3) by (metis rev_exhaust)
  let ?e = "foldl deque_append d ws"
  have "length (items ?e) = maxlen ?e" "0 < maxlen ?e"
    using assms by (simp_all add: foldl_deque_append_full foldl_deque_append_maxlen)
  then have "last (items (deque_append ?e w)) = w" by (simp add: last_deque_append)
  then show ?thesis by (simp add: vs)
qed

lemma histories_full_init: "histories_full (init io0 t0)"
  by (simp add: histories_full_def init_def deque_new_def)

lemma histories_full_stats_body:
  "histories_full m \<Longrightarrow> histories_full (snd (stats_body os m))"
proof -
  let ?R = "\<lambda>a b. histories_full a \<longrightarrow> histories_full b"
  have "?R m (snd (stats_body os m))"
  proof (rule stats_body_rel [where R = ?R])
    show "\<And>m. ?R m (snd (cpu_section os m))"
      by (auto simp: cpu_section_def histories_full_def Let_def maxlen_deque_append
          length_deque_append_full split: sum.split option.split)
    show "\<And>m. ?R m (snd (mem_section os m))"
      by (auto simp: mem_section_def histories_full_def maxlen_deque_append
          length_deque_append_full split: sum.split)
    show "\<And>m. ?R m (snd (gpu_section os m))"
      by (auto simp: gpu_section_def histories_full_def split: prod.split)
    show "\<And>m. ?R m (snd (net_section os m))"
      by (auto simp: net_section_def histories_full_def Let_def draw_network_graph_def
          maxlen_deque_append length_deque_append_full split: sum.split)
    show "\<And>m. ?R m (snd (swap_section os m))"
      by (auto simp: swap_section_def histories_full_def split: sum.split)
    show "\<And>m. ?R m (snd (proc_count_section os m))"
      by (auto simp: proc_count_section_def histories_full_def split: sum.split)
    show "\<And>m. ?R m (snd (battery_section os m))"
      by (auto simp: battery_section_def histories_full_def Let_def split: sum.split option.split)
    show "\<And>m. ?R m (snd (top_proc_section os m))"
      by (auto simp: top_proc_section_def histories_full_def split: sum.split option.split)
    show "\<And>m. ?R m (snd (footer_section os m))"
      by (auto simp: footer_section_def histories_full_def Let_def split: sum.split)
  qed blast
  then show "histories_full m \<Longrightarrow> histories_full (snd (stats_body os m))" by simp
qed

lemma histories_full_update_stats:
  "histories_full m \<Longrightarrow> histories_full (snd (update_stats os m))"
  using histories_full_stats_body [of m os]
  by (cases "stats_body os m")
     (auto simp: update_stats_def root_after_def histories_full_def split: option.split)

lemma histories_full_ticks: "histories_full m \<Longrightarrow> histories_full (ticks oss m)"
  by (induction oss arbitrary: m) (simp_all add: histories_full_update_stats)

text \<open>
  Claim C5. Each of the four history deques (CPU percent, memory percent, upload rate,
  download rate) holds exactly 60 elements after any number of ticks; the constructor fills
  each with 60 zeros; appending to a full deque drops the oldest element; and for every
  capacity \<open>n \<ge> 1\<close>, after pushing at least \<open>n\<close> values into a deque created full with
  capacity \<open>n\<close>, it still holds exactly \<open>n\<close> elements and the last one is the value
  pushed last.
\<close>

theorem history_buffers_keep_capacity:
  "length (items (cpu_history (ticks oss (init io0 t0)))) = 60 \<and>
   length (items (mem_history (ticks oss (init io0 t0)))) = 60 \<and>
   length (items (net_up_history (ticks oss (init io0 t0)))) = 60 \<and>
   length (items (net_down_history (ticks oss (init io0 t0)))) = 60 \<and>
   items (cpu_history (init io0 t0)) = replicate 60 0 \<and>
   items (mem_history (init io0 t0)) = replicate 60 0 \<and>
   items (net_up_history (init io0 t0)) = replicate 60 0 \<and>
   items (net_down_history (init io0 t0)) = replicate 60 0 \<and>
   (length (items d) = maxlen d \<and> 0 < maxlen d \<longrightarrow>
      items (deque_append d v) = tl (items d) @ [v]) \<and>
   (1 \<le> n \<and> n \<le> length vs \<longrightarrow>
      length (items (foldl deque_append (deque_new (replicate n z) n) vs)) = n \<and>
      last (items (foldl deque_append (deque_new (replicate n z) n) vs)) = last vs)"
proof -
  have full: "histories_full (ticks oss (init io0 t0))"
    by (simp add: histories_full_ticks histories_full_init)
  have zeros: "items (cpu_history (init io0 t0)) = replicate 60 0"
    "items (mem_history (init io0 t0)) = replicate 60 0"
    "items (net_up_history (init io0 t0)) = replicate 60 0"
    "items (net_down_history (init io0 t0)) = replicate 60 0"
    by (simp_all add: init_def deque_new_def)
  have evict: "length (items d) = maxlen d \<and> 0 < maxlen d \<longrightarrow>
      items (deque_append d v) = tl (items d) @ [v]"
    by (simp add: items_deque_append_full)
  have many: "1 \<le> n \<and> n \<le> length vs \<longrightarrow>
      length (items (foldl deque_append (deque_new (replicate n z) n) vs)) = n \<and>
      last (items (foldl deque_append (deque_new (replicate n z) n) vs)) = last vs"
  proof
    assume h: "1 \<le> n \<and> n \<le> length vs"
    then have ne: "vs \<noteq> []" by auto
    show "length (items (foldl deque_append (deque_new (replicate n z) n) vs)) = n \<and>
      last (items (foldl deque_append (deque_new (replicate n z) n) vs)) = last vs"
      using h ne
      by (simp add: deque_new_replicate foldl_deque_append_full foldl_deque_append_last)
  qed
  show ?thesis using full zeros evict many by (simp add: histories_full_def)
qed

theorem history_buffers_keep_capacity_witness:
  "items (deque_append (Deque [1, 2 :: int] 2) 3) = [2, 3] \<and>
   length (items (foldl deque_append (deque_new (replicate 2 0) 2) [5, 6, 7 :: int])) = 2 \<and>
   last (items (foldl deque_append (deque_new (replicate 2 0) 2) [5, 6, 7 :: int])) = 7"
  using history_buffers_keep_capacity [of "[]" io_zero 0 "Deque [1, 2 :: int] 2" 3 2 "[5, 6, 7 :: int]" 0]
  by simp

subsection \<open>Rescheduling\<close>






lemma cpu_percent_raises:
  assumes "cpu_percent os = Inl e"
  shows "stats_body os m = (Some e, m)"
proof -
  have "cpu_section os m = (Some e, m)" using assms by (simp add: cpu_section_def)
  then show ?thesis unfolding stats_body_def by (simp add: then_section_def)
qed





subsection \<open>Top-process selection\<close>

lemma last_insort_key:
  "sorted (map f ys) \<Longrightarrow>
   last (insort_key f x ys) = (if ys = [] \<or> f (last ys) < f x then x else last ys)"
proof (induction ys)
  case Nil
  then show ?case by simp
next
  case (Cons y ys)
  show ?case
  proof (cases "f x \<le> f y")
    case True
    have "f y \<le> f (last (y # ys))" using Cons.prems by (cases ys) auto
    then show ?thesis using True by auto
  next
    case False
    then show ?thesis using Cons by (cases ys) auto
  qed
qed

lemma first_maximum_split:
  "xs \<noteq> [] \<Longrightarrow>
   \<exists>pre post. xs = pre @ [last (sort_key f (rev xs))] @ post \<and>
     (\<forall>p\<in>set pre. f p < f (last (sort_key f (rev xs)))) \<and>
     (\<forall>p\<in>set post. f p \<le> f (last (sort_key f (rev xs))))"
proof (induction xs rule: rev_induct)
  case Nil
  then show ?case by simp
next
  case (snoc x xs)
  let ?S = "sort_key f (rev xs)"
  have last_eq: "last (sort_key f (rev (xs @ [x]))) =
      (if ?S = [] \<or> f (last ?S) < f x then x else last ?S)"
    by (simp add: last_insort_key)
  show ?case
  proof (cases "xs = []")
    case True
    show ?thesis unfolding True by (intro exI [of _ "[]"]) simp
  next
    case False
    then have Sne: "?S \<noteq> []" by (metis length_sort length_rev length_0_conv)
    from snoc.IH [OF False] obtain pre post where
      xs: "xs = pre @ [last ?S] @ post" and
      pre: "\<forall>p\<in>set pre. f p < f (last ?S)" and
      post: "\<forall>p\<in>set post. f p \<le> f (last ?S)" by blast
    show ?thesis
    proof (cases "f (last ?S) < f x")
      case True
      then have r: "last (sort_key f (rev (xs @ [x]))) = x" using last_eq by simp
      have "\<forall>p\<in>set xs. f p < f x"
      proof
        fix p assume "p \<in> set xs"
        then have "p \<in> set pre \<or> p = last ?S \<or> p \<in> set post" using xs
          by (metis Un_iff append_Cons append_Nil set_ConsD set_append)
        then have "f p \<le> f (last ?S)" using pre post by auto
        then show "f p < f x" using True by simp
      qed
      then have "xs @ [x] = xs @ [x] @ [] \<and> (\<forall>p\<in>set xs. f p < f x) \<and> (\<forall>p\<in>set []. f p \<le> f x)"
        by simp
      then show ?thesis unfolding r by blast
    next
      case False
      then have r: "last (sort_key f (rev (xs @ [x]))) = last ?S" using last_eq Sne by simp
      have "xs @ [x] = pre @ [last ?S] @ (post @ [x])" using xs by simp
      moreover have "\<forall>p\<in>set (post @ [x]). f p \<le> f (last ?S)" using post False by auto
      ultimately show ?thesis unfolding r using pre by blast
    qed
  qed
qed

lemma name_cpu_pairs_named:
  "\<forall>p\<in>set table. info_name p \<noteq> None \<Longrightarrow>
   name_cpu_pairs table = Inr (map (\<lambda>p. (take 10 (the (info_name p)), info_cpu_percent p)) table)"
  by (induction table) auto

lemma name_cpu_pairs_unnamed:
  "\<exists>p\<in>set table. info_name p = None \<Longrightarrow> name_cpu_pairs table = Inl TypeError"
proof (induction table)
  case Nil
  then show ?case by simp
next
  case (Cons p ps)
  show ?case
  proof (cases "info_name p")
    case None
    then show ?thesis by simp
  next
    case (Some n)
    then have "\<exists>q\<in>set ps. info_name q = None" using Cons.prems by auto
    then show ?thesis using Cons.IH Some by simp
  qed
qed

lemma short_list: "xs \<noteq> [] \<Longrightarrow> length xs < 2 \<Longrightarrow> \<exists>x. xs = [x]"
proof (cases xs)
  case Nil
  assume "xs \<noteq> []"
  with Nil show ?thesis by simp
next
  case (Cons a as)
  assume "length xs < 2"
  with Cons have "as = []" by simp
  with Cons show ?thesis by simp
qed

lemma take1_sorted_reverse:
  assumes "xs \<noteq> []" "\<forall>x\<in>set xs. snd x \<noteq> None"
  shows "\<exists>ys. sorted_reverse xs = Inr ys \<and> take 1 ys = [last (sort_key cpu_key (rev xs))]"
proof (cases "length xs < 2")
  case True
  then obtain x where "xs = [x]" using assms(1) short_list by blast
  then show ?thesis by (simp add: sorted_reverse_def)
next
  case False
  have noNone: "\<not> list_ex (\<lambda>x. snd x = None) xs" using assms(2) by (simp add: list_ex_iff)
  let ?S = "sort_key cpu_key (rev xs)"
  have "?S \<noteq> []" using assms(1) by (metis length_sort length_rev length_0_conv)
  then have "take 1 (rev ?S) = [last ?S]"
    by (cases ?S rule: rev_cases) simp_all
  then show ?thesis using False noNone by (simp add: sorted_reverse_def)
qed

lemma top_cpu_process_readable:
  assumes ne: "table \<noteq> []"
    and rd: "\<forall>p\<in>set table. info_name p \<noteq> None \<and> info_cpu_percent p \<noteq> None"
  shows "\<exists>pre p post n c. table = pre @ [p] @ post \<and>
           info_name p = Some n \<and> info_cpu_percent p = Some c \<and>
           (\<forall>q\<in>set pre. \<exists>d. info_cpu_percent q = Some d \<and> d < c) \<and>
           (\<forall>q\<in>set post. \<exists>d. info_cpu_percent q = Some d \<and> d \<le> c) \<and>
           top_cpu_process table = (if 0 < c then Inr (Some (take 10 n)) else Inr None)"
proof -
  let ?g = "\<lambda>p. (take 10 (the (info_name p)), info_cpu_percent p)"
  let ?procs = "map ?g table"
  have pairs: "name_cpu_pairs table = Inr ?procs" using rd by (simp add: name_cpu_pairs_named)
  have pne: "?procs \<noteq> []" using ne by simp
  have pcpu: "\<forall>x\<in>set ?procs. snd x \<noteq> None" using rd by auto
  let ?r = "last (sort_key cpu_key (rev ?procs))"
  obtain ys where ys: "sorted_reverse ?procs = Inr ys" "take 1 ys = [?r]"
    using take1_sorted_reverse [OF pne pcpu] by blast
  obtain pre' post' where split: "?procs = pre' @ [?r] @ post'"
    and lt: "\<forall>x\<in>set pre'. cpu_key x < cpu_key ?r"
    and le: "\<forall>x\<in>set post'. cpu_key x \<le> cpu_key ?r"
    using first_maximum_split [OF pne, of cpu_key] by blast
  have "\<exists>us vs. table = us @ vs \<and> pre' = map ?g us \<and> [?r] @ post' = map ?g vs"
    using split by (simp only: map_eq_append_conv)
  then obtain pre rest where t1: "table = pre @ rest" and pre': "pre' = map ?g pre"
    and rest: "[?r] @ post' = map ?g rest"
    by blast
  from rest obtain p post where t2: "rest = p # post" and r: "?r = ?g p" and post': "post' = map ?g post"
    by (cases rest) auto
  have pmem: "p \<in> set table" using t1 t2 by simp
  obtain n c where n: "info_name p = Some n" and c: "info_cpu_percent p = Some c"
    using rd pmem by auto
  have key: "\<And>q. q \<in> set table \<Longrightarrow> \<exists>d. info_cpu_percent q = Some d \<and> cpu_key (?g q) = d"
    using rd by (auto simp: cpu_key_def)
  have keyr: "cpu_key ?r = c" using r c by (simp add: cpu_key_def)
  have A: "\<forall>q\<in>set pre. \<exists>d. info_cpu_percent q = Some d \<and> d < c"
  proof
    fix q assume q: "q \<in> set pre"
    then have "q \<in> set table" using t1 by simp
    then obtain d where d: "info_cpu_percent q = Some d" "cpu_key (?g q) = d" using key by blast
    have "?g q \<in> set pre'" using q pre' by simp
    then have "cpu_key (?g q) < c" using lt keyr by auto
    then show "\<exists>d. info_cpu_percent q = Some d \<and> d < c" using d by simp
  qed
  have B: "\<forall>q\<in>set post. \<exists>d. info_cpu_percent q = Some d \<and> d \<le> c"
  proof
    fix q assume q: "q \<in> set post"
    then have "q \<in> set table" using t1 t2 by simp
    then obtain d where d: "info_cpu_percent q = Some d" "cpu_key (?g q) = d" using key by blast
    have "?g q \<in> set post'" using q post' by simp
    then have "cpu_key (?g q) \<le> c" using le keyr by auto
    then show "\<exists>d. info_cpu_percent q = Some d \<and> d \<le> c" using d by simp
  qed
  have "top_cpu_process table = (if 0 < c then Inr (Some (take 10 n)) else Inr None)"
    using pairs ys r n c by (simp add: top_cpu_process_def)
  moreover have "table = pre @ [p] @ post" using t1 t2 by simp
  ultimately show ?thesis using n c A B by blast
qed

lemma top_cpu_process_unreadable:
  assumes "\<exists>p\<in>set table. info_name p = None \<or> info_cpu_percent p = None"
  shows "top_cpu_process table = Inl TypeError"
proof (cases "\<exists>p\<in>set table. info_name p = None")
  case True
  then show ?thesis by (simp add: top_cpu_process_def name_cpu_pairs_unnamed)
next
  case False
  then have named: "\<forall>p\<in>set table. info_name p \<noteq> None" by simp
  let ?g = "\<lambda>p. (take 10 (the (info_name p)), info_cpu_percent p)"
  let ?procs = "map ?g table"
  have pairs: "name_cpu_pairs table = Inr ?procs" using named by (simp add: name_cpu_pairs_named)
  from assms False obtain p where p: "p \<in> set table" "info_cpu_percent p = None" by blast
  then have ex: "list_ex (\<lambda>x. snd x = None) ?procs" by (auto simp: list_ex_iff)
  show ?thesis
  proof (cases "length ?procs < 2")
    case False
    then have "sorted_reverse ?procs = Inl TypeError" using ex by (simp add: sorted_reverse_def)
    then show ?thesis using pairs by (simp add: top_cpu_process_def)
  next
    case True
    moreover have "table \<noteq> []" using p by auto
    ultimately obtain q where "table = [q]" using short_list [of table] by auto
    then have "table = [p]" using p by simp
    then show ?thesis using p False
      by (auto simp: top_cpu_process_def sorted_reverse_def split: option.splits)
  qed
qed

lemma top_proc_section_table:
  "process_iter os = Inr table \<Longrightarrow>
   top_proc_section os m =
     (None, case top_cpu_process table of Inr (Some n) \<Rightarrow> m\<lparr> top_proc_label := [Lit n] \<rparr> | _ \<Rightarrow> m)"
  by (simp add: top_proc_section_def split: sum.split option.split)

lemma top_cpu_process_abc: "top_cpu_process table_abc = Inr (Some ''b'')"
  by (simp add: table_abc_def top_cpu_process_def sorted_reverse_def cpu_key_def)

text \<open>
  Claim C6, as amended. Provided every entry of the process table was read (name and CPU
  percentage present) and some process has a CPU percentage above 0, the top-process
  label is set to the name (cut to 10 characters) of a process with the maximal CPU
  percentage, namely the first one in the order of the table: every entry before it is
  strictly smaller, every entry after it is at most equal. Nothing is reported (the label
  is left as it was) when the table is empty, when no CPU percentage is above 0, and when
  any entry failed to read, all of them in particular: one unreadable entry abandons the
  selection, whatever the readable entries are. For the table
  \<open>[("a", 0), ("b", 5.2), ("c", 5.2)]\<close> the label becomes \<open>b\<close>, whose usage is 5.2.
\<close>

theorem top_process_first_maximum:
  "(process_iter os = Inr table \<and>
    (\<forall>p\<in>set table. info_name p \<noteq> None \<and> info_cpu_percent p \<noteq> None) \<and>
    (\<exists>p\<in>set table. \<exists>c. info_cpu_percent p = Some c \<and> 0 < c) \<longrightarrow>
      (\<exists>pre p post n c. table = pre @ [p] @ post \<and>
         info_name p = Some n \<and> info_cpu_percent p = Some c \<and> 0 < c \<and>
         (\<forall>q\<in>set pre. \<exists>d. info_cpu_percent q = Some d \<and> d < c) \<and>
         (\<forall>q\<in>set post. \<exists>d. info_cpu_percent q = Some d \<and> d \<le> c) \<and>
         top_proc_section os m = (None, m\<lparr> top_proc_label := [Lit (take 10 n)] \<rparr>))) \<and>
   (process_iter os = Inr [] \<longrightarrow> top_proc_section os m = (None, m)) \<and>
   (process_iter os = Inr table \<and>
    (\<forall>p\<in>set table. info_name p = None \<and> info_cpu_percent p = None) \<longrightarrow>
      top_proc_section os m = (None, m)) \<and>
   (process_iter os = Inr table \<and>
    (\<exists>p\<in>set table. info_name p = None \<or> info_cpu_percent p = None) \<longrightarrow>
      top_proc_section os m = (None, m)) \<and>
   (process_iter os = Inr table \<and>
    (\<forall>p\<in>set table. info_name p \<noteq> None \<and> (\<exists>c. info_cpu_percent p = Some c \<and> c \<le> 0)) \<longrightarrow>
      top_proc_section os m = (None, m)) \<and>
   (process_iter os = Inr table_abc \<longrightarrow>
      top_proc_section os m = (None, m\<lparr> top_proc_label := [Lit ''b''] \<rparr>)) \<and>
   sorted_reverse [(''a'', Some 0), (''b'', Some 5.2), (''c'', Some 5.2)] =
     Inr [(''b'', Some 5.2), (''c'', Some 5.2), (''a'', Some 0)]"
proof -
  have pos: "process_iter os = Inr table \<and>
    (\<forall>p\<in>set table. info_name p \<noteq> None \<and> info_cpu_percent p \<noteq> None) \<and>
    (\<exists>p\<in>set table. \<exists>c. info_cpu_percent p = Some c \<and> 0 < c) \<longrightarrow>
      (\<exists>pre p post n c. table = pre @ [p] @ post \<and>
         info_name p = Some n \<and> info_cpu_percent p = Some c \<and> 0 < c \<and>
         (\<forall>q\<in>set pre. \<exists>d. info_cpu_percent q = Some d \<and> d < c) \<and>
         (\<forall>q\<in>set post. \<exists>d. info_cpu_percent q = Some d \<and> d \<le> c) \<and>
         top_proc_section os m = (None, m\<lparr> top_proc_label := [Lit (take 10 n)] \<rparr>))"
  proof
    assume h: "process_iter os = Inr table \<and>
      (\<forall>p\<in>set table. info_name p \<noteq> None \<and> info_cpu_percent p \<noteq> None) \<and>
      (\<exists>p\<in>set table. \<exists>c. info_cpu_percent p = Some c \<and> 0 < c)"
    then have ne: "table \<noteq> []" by auto
    from h obtain p0 c0 where p0: "p0 \<in> set table" "info_cpu_percent p0 = Some c0" "0 < c0"
      by blast
    from top_cpu_process_readable [OF ne] h obtain pre p post n c where
      t: "table = pre @ [p] @ post" and n: "info_name p = Some n"
      and c: "info_cpu_percent p = Some c"
      and A: "\<forall>q\<in>set pre. \<exists>d. info_cpu_percent q = Some d \<and> d < c"
      and B: "\<forall>q\<in>set post. \<exists>d. info_cpu_percent q = Some d \<and> d \<le> c"
      and top: "top_cpu_process table = (if 0 < c then Inr (Some (take 10 n)) else Inr None)"
      by blast
    have "p0 \<in> set pre \<or> p0 = p \<or> p0 \<in> set post" using p0(1) t by auto
    then have "c0 \<le> c" using A B c p0(2) by fastforce
    then have cpos: "0 < c" using p0(3) by simp
    then have "top_proc_section os m = (None, m\<lparr> top_proc_label := [Lit (take 10 n)] \<rparr>)"
      using h top by (simp add: top_proc_section_table)
    then show "\<exists>pre p post n c. table = pre @ [p] @ post \<and>
         info_name p = Some n \<and> info_cpu_percent p = Some c \<and> 0 < c \<and>
         (\<forall>q\<in>set pre. \<exists>d. info_cpu_percent q = Some d \<and> d < c) \<and>
         (\<forall>q\<in>set post. \<exists>d. info_cpu_percent q = Some d \<and> d \<le> c) \<and>
         top_proc_section os m = (None, m\<lparr> top_proc_label := [Lit (take 10 n)] \<rparr>)"
      using t n c A B cpos by blast
  qed
  have empty: "process_iter os = Inr [] \<longrightarrow> top_proc_section os m = (None, m)"
    by (simp add: top_proc_section_table top_cpu_process_def sorted_reverse_def)
  have failed: "process_iter os = Inr table \<and>
    (\<forall>p\<in>set table. info_name p = None \<and> info_cpu_percent p = None) \<longrightarrow>
      top_proc_section os m = (None, m)"
  proof
    assume h: "process_iter os = Inr table \<and>
      (\<forall>p\<in>set table. info_name p = None \<and> info_cpu_percent p = None)"
    show "top_proc_section os m = (None, m)"
    proof (cases "table = []")
      case True
      then show ?thesis using h empty by simp
    next
      case False
      then have "\<exists>p\<in>set table. info_name p = None \<or> info_cpu_percent p = None"
        using h by (cases table) auto
      then have "top_cpu_process table = Inl TypeError" by (rule top_cpu_process_unreadable)
      then show ?thesis using h by (simp add: top_proc_section_table)
    qed
  qed
  have idle: "process_iter os = Inr table \<and>
    (\<forall>p\<in>set table. info_name p \<noteq> None \<and> (\<exists>c. info_cpu_percent p = Some c \<and> c \<le> 0)) \<longrightarrow>
      top_proc_section os m = (None, m)"
  proof
    assume h: "process_iter os = Inr table \<and>
      (\<forall>p\<in>set table. info_name p \<noteq> None \<and> (\<exists>c. info_cpu_percent p = Some c \<and> c \<le> 0))"
    show "top_proc_section os m = (None, m)"
    proof (cases "table = []")
      case True
      then show ?thesis using h empty by simp
    next
      case False
      have rd: "\<forall>p\<in>set table. info_name p \<noteq> None \<and> info_cpu_percent p \<noteq> None"
        using h by auto
      from top_cpu_process_readable [OF False rd] obtain pre p post n c where
        t: "table = pre @ [p] @ post" and c: "info_cpu_percent p = Some c"
        and top: "top_cpu_process table = (if 0 < c then Inr (Some (take 10 n)) else Inr None)"
        by blast
      have "p \<in> set table" using t by simp
      then have "c \<le> 0" using h c by auto
      then have "top_cpu_process table = Inr None" using top by simp
      then show ?thesis using h by (simp add: top_proc_section_table)
    qed
  qed
  have example: "process_iter os = Inr table_abc \<longrightarrow>
      top_proc_section os m = (None, m\<lparr> top_proc_label := [Lit ''b''] \<rparr>)"
    by (simp add: top_proc_section_table top_cpu_process_abc)
  have usage: "sorted_reverse [(''a'', Some 0), (''b'', Some 5.2), (''c'', Some 5.2)] =
     Inr [(''b'', Some 5.2), (''c'', Some 5.2), (''a'', Some 0)]"
    by (simp add: sorted_reverse_def cpu_key_def)
  have partial: "process_iter os = Inr table \<and>
    (\<exists>p\<in>set table. info_name p = None \<or> info_cpu_percent p = None) \<longrightarrow>
      top_proc_section os m = (None, m)"
    by (auto simp: top_proc_section_table top_cpu_process_unreadable)
  show ?thesis using pos empty failed partial idle example usage by blast
qed

theorem top_process_first_maximum_witness:
  "process_iter (healthy_reads\<lparr> process_iter := Inr table_abc \<rparr>) = Inr table_abc \<and>
   top_proc_label (snd (top_proc_section (healthy_reads\<lparr> process_iter := Inr table_abc \<rparr>)
                          (init io_zero 0))) = [Lit ''b''] \<and>
   (\<exists>n. top_proc_section (healthy_reads\<lparr> process_iter := Inr table_abc \<rparr>) (init io_zero 0) =
      (None, (init io_zero 0)\<lparr> top_proc_label := [Lit (take 10 n)] \<rparr>)) \<and>
   top_proc_label (snd (top_proc_section (healthy_reads\<lparr> process_iter := Inr [] \<rparr>)
                          (init io_zero 0))) = [Lit ''...''] \<and>
   top_proc_section (healthy_reads\<lparr> process_iter := Inr table_partial \<rparr>) (init io_zero 0) =
     (None, init io_zero 0)"
proof -
  let ?os = "healthy_reads\<lparr> process_iter := Inr table_abc \<rparr>"
  let ?none = "healthy_reads\<lparr> process_iter := Inr [] \<rparr>"
  have a: "process_iter ?os = Inr table_abc" by simp
  have b: "\<forall>p\<in>set table_abc. info_name p \<noteq> None \<and> info_cpu_percent p \<noteq> None"
    by (simp add: table_abc_def del: not_None_eq)
  have c: "\<exists>p\<in>set table_abc. \<exists>c. info_cpu_percent p = Some c \<and> 0 < c"
  proof -
    let ?b = "\<lparr> info_name = Some ''b'', info_cpu_percent = Some 5.2 \<rparr>"
    have "?b \<in> set table_abc" by (simp add: table_abc_def)
    moreover have "info_cpu_percent ?b = Some 5.2 \<and> (0::real) < 5.2" by simp
    ultimately show ?thesis by blast
  qed
  have d: "process_iter ?none = Inr []" by simp
  have "top_proc_section ?os (init io_zero 0) =
      (None, (init io_zero 0)\<lparr> top_proc_label := [Lit ''b''] \<rparr>)"
    using top_process_first_maximum [of ?os table_abc "init io_zero 0"] a by blast
  then have e: "top_proc_label (snd (top_proc_section ?os (init io_zero 0))) = [Lit ''b'']"
    by simp
  have "top_proc_section ?none (init io_zero 0) = (None, init io_zero 0)"
    using top_process_first_maximum [of ?none "[]" "init io_zero 0"] d by blast
  then have f: "top_proc_label (snd (top_proc_section ?none (init io_zero 0))) = [Lit ''...'']"
    by (simp add: init_def)
  have g: "\<exists>n. top_proc_section ?os (init io_zero 0) =
      (None, (init io_zero 0)\<lparr> top_proc_label := [Lit (take 10 n)] \<rparr>)"
    using top_process_first_maximum [of ?os table_abc "init io_zero 0"] a b c by blast
  let ?part = "healthy_reads\<lparr> process_iter := Inr table_partial \<rparr>"
  let ?k = "\<lparr> info_name = Some ''kernel_task'', info_cpu_percent = None \<rparr>"
  have "?k \<in> set table_partial" by (simp add: table_partial_def)
  moreover have "info_cpu_percent ?k = None" by simp
  ultimately have u: "\<exists>p\<in>set table_partial. info_name p = None \<or> info_cpu_percent p = None"
    by blast
  have v: "process_iter ?part = Inr table_partial" by simp
  have w: "top_proc_section ?part (init io_zero 0) = (None, init io_zero 0)"
    using top_process_first_maximum [of ?part table_partial "init io_zero 0"] u v by blast
  show ?thesis using a e f g w by blast
qed

text \<open>
  Claim C6 as stated fails: in a table whose readable entries are \<open>a\<close> at 0 and \<open>b\<close> at 5.2,
  one more entry whose CPU percentage could not be read makes the selection report
  nothing; the label keeps its initial text, although \<open>b\<close> has the maximal CPU percentage
  and is reported when the table holds the readable entries only.
\<close>

theorem readable_maximum_is_not_reported:
  "top_proc_label
     (snd (top_proc_section (healthy_reads\<lparr> process_iter := Inr table_partial \<rparr>)
        (init io_zero 0))) = [Lit ''...''] \<and>
   top_cpu_process table_partial = Inl TypeError \<and>
   top_proc_label
     (snd (top_proc_section (healthy_reads\<lparr> process_iter := Inr (take 2 table_partial) \<rparr>)
        (init io_zero 0))) = [Lit ''b''] \<and>
   take 2 table_partial =
     [\<lparr> info_name = Some ''a'', info_cpu_percent = Some 0 \<rparr>,
      \<lparr> info_name = Some ''b'', info_cpu_percent = Some 5.2 \<rparr>]"
  by (simp add: top_proc_section_def top_cpu_process_def sorted_reverse_def cpu_key_def
      table_partial_def init_def)

text \<open>
  Claim C7, as amended. The selection is guarded by one \<open>try\<close> around the whole block,
  not by one per process. A process that psutil could not read (its name or its CPU
  percentage is \<open>None\<close>) makes the block raise; the exception is swallowed, the selection
  is abandoned for this tick and the label is left as it was, whatever the other
  processes are. The same holds when the iteration itself raises. The block never raises
  into the tick, so the remaining sections still run.
\<close>

theorem unreadable_process_abandons_selection:
  "(process_iter os = Inr table \<and>
    (\<exists>p\<in>set table. info_name p = None \<or> info_cpu_percent p = None) \<longrightarrow>
      top_proc_section os m = (None, m)) \<and>
   (process_iter os = Inl e \<longrightarrow> top_proc_section os m = (None, m)) \<and>
   fst (top_proc_section os m) = None"
proof -
  have "process_iter os = Inr table \<and>
    (\<exists>p\<in>set table. info_name p = None \<or> info_cpu_percent p = None) \<longrightarrow>
      top_proc_section os m = (None, m)"
    by (auto simp: top_proc_section_table top_cpu_process_unreadable)
  moreover have "process_iter os = Inl e \<longrightarrow> top_proc_section os m = (None, m)"
    by (simp add: top_proc_section_def)
  moreover have "fst (top_proc_section os m) = None"
    by (simp add: top_proc_section_def split: sum.split option.split)
  ultimately show ?thesis by blast
qed

theorem unreadable_process_abandons_selection_witness:
  "process_iter (healthy_reads\<lparr> process_iter := Inr table_denied \<rparr>) = Inr table_denied \<and>
   (\<exists>p\<in>set table_denied. info_name p = None \<or> info_cpu_percent p = None) \<and>
   top_proc_section (healthy_reads\<lparr> process_iter := Inr table_denied \<rparr>) (init io_zero 0) =
     (None, init io_zero 0) \<and>
   top_proc_section (healthy_reads\<lparr> process_iter := Inl AccessDenied \<rparr>) (init io_zero 0) =
     (None, init io_zero 0)"
proof -
  let ?os = "healthy_reads\<lparr> process_iter := Inr table_denied \<rparr>"
  let ?deny = "healthy_reads\<lparr> process_iter := Inl AccessDenied \<rparr>"
  have a: "process_iter ?os = Inr table_denied" by simp
  have b: "\<exists>p\<in>set table_denied. info_name p = None \<or> info_cpu_percent p = None"
    by (simp add: table_denied_def)
  have c: "process_iter ?deny = Inl AccessDenied" by simp
  show ?thesis
    using unreadable_process_abandons_selection [of ?os table_denied "init io_zero 0" AccessDenied]
      unreadable_process_abandons_selection [of ?deny table_denied "init io_zero 0" AccessDenied]
      a b c by blast
qed

text \<open>
  Claim C7 as stated fails: with one unreadable process in front of the readable process
  \<open>b\<close>, the label keeps its initial text, although skipping only the unreadable process
  would report \<open>b\<close>, as the table without it does.
\<close>

theorem one_unreadable_process_hides_the_others:
  "top_proc_label (snd (top_proc_section (healthy_reads\<lparr> process_iter := Inr table_denied \<rparr>)
                          (init io_zero 0))) = [Lit ''...''] \<and>
   top_proc_label (snd (top_proc_section (healthy_reads\<lparr> process_iter := Inr table_b \<rparr>)
                          (init io_zero 0))) = [Lit ''b''] \<and>
   top_proc_label (snd (update_stats (healthy_reads\<lparr> process_iter := Inr table_denied \<rparr>)
                          (init io_zero 0))) = [Lit ''...''] \<and>
   top_proc_label (snd (update_stats (healthy_reads\<lparr> process_iter := Inr table_b \<rparr>)
                          (init io_zero 0))) = [Lit ''b'']"
  by (simp add: update_stats_def stats_body_def then_section_def cpu_section_def mem_section_def
      gpu_section_def get_gpu_usage_def net_section_def swap_section_def proc_count_section_def
      battery_section_def top_proc_section_def footer_section_def root_after_def
      draw_network_graph_def truediv_def total_seconds_def
      top_cpu_process_def sorted_reverse_def cpu_key_def
      table_denied_def table_b_def healthy_reads_def init_def io_zero_def Let_def)

lemma name_cpu_pairs_origin:
  "name_cpu_pairs table = Inr procs \<Longrightarrow> x \<in> set procs \<Longrightarrow>
   \<exists>p\<in>set table. \<exists>n. info_name p = Some n \<and> fst x = take 10 n"
proof (induction table arbitrary: procs)
  case Nil
  then show ?case by simp
next
  case (Cons p ps)
  from Cons.prems(1) obtain n rest where n: "info_name p = Some n"
    and rest: "name_cpu_pairs ps = Inr rest"
    and procs: "procs = (take 10 n, info_cpu_percent p) # rest"
    by (auto split: option.splits sum.splits)
  show ?case
  proof (cases "x = (take 10 n, info_cpu_percent p)")
    case True
    then show ?thesis using n by auto
  next
    case False
    then have "x \<in> set rest" using Cons.prems(2) procs by simp
    from Cons.IH [OF rest this] show ?thesis by auto
  qed
qed

lemma set_sorted_reverse: "sorted_reverse xs = Inr ys \<Longrightarrow> set ys = set xs"
  by (auto simp: sorted_reverse_def split: if_splits)

lemma top_cpu_process_origin:
  assumes "top_cpu_process table = Inr (Some x)"
  shows "\<exists>p\<in>set table. \<exists>n. info_name p = Some n \<and> x = take 10 n"
proof -
  from assms obtain procs ys y zs where pairs: "name_cpu_pairs table = Inr procs"
    and sorted: "sorted_reverse procs = Inr ys" and tk: "take 1 ys = y # zs" and x: "x = fst y"
    by (auto simp: top_cpu_process_def split: sum.splits list.splits option.splits if_splits)
  have "y \<in> set (take 1 ys)" using tk by simp
  then have "y \<in> set ys" by (rule in_set_takeD)
  then have "y \<in> set procs" using set_sorted_reverse [OF sorted] by simp
  from name_cpu_pairs_origin [OF pairs this] show ?thesis using x by simp
qed

lemma truncated_name_ofD:
  assumes "truncated_name_of os label"
  shows "\<exists>table p n. process_iter os = Inr table \<and> p \<in> set table \<and> info_name p = Some n \<and>
      label = [Lit (take 10 n)] \<and> length (take 10 n) \<le> 10 \<and> (\<exists>rest. n = take 10 n @ rest)"
proof -
  from assms obtain table p n where t: "process_iter os = Inr table" "p \<in> set table"
    "info_name p = Some n" "label = [Lit (take 10 n)]"
    by (auto simp: truncated_name_of_def list_ex_iff split: sum.splits option.splits)
  have "n = take 10 n @ drop 10 n" by simp
  then have "\<exists>rest. n = take 10 n @ rest" by blast
  moreover have "length (take 10 n) \<le> 10" by simp
  ultimately show ?thesis using t by blast
qed

lemma top_proc_section_label:
  "top_proc_label (snd (top_proc_section os m)) = top_proc_label m \<or>
   truncated_name_of os (top_proc_label (snd (top_proc_section os m)))"
proof (cases "process_iter os")
  case (Inl e)
  then show ?thesis by (simp add: top_proc_section_def)
next
  case (Inr table)
  show ?thesis
  proof (cases "top_cpu_process table")
    case (Inl e)
    then show ?thesis using Inr by (simp add: top_proc_section_def)
  next
    case r: (Inr res)
    show ?thesis
    proof (cases res)
      case None
      then show ?thesis using Inr r by (simp add: top_proc_section_def)
    next
      case (Some x)
      then have "top_cpu_process table = Inr (Some x)" using r by simp
      from top_cpu_process_origin [OF this] obtain p n where
        p: "p \<in> set table" "info_name p = Some n" "x = take 10 n" by blast
      have "truncated_name_of os [Lit x]"
        unfolding truncated_name_of_def using Inr p
        by (auto simp: list_ex_iff intro!: bexI [of _ p])
      then show ?thesis using Inr r Some by (simp add: top_proc_section_def)
    qed
  qed
qed

lemma top_proc_label_stats_body:
  "top_proc_label (snd (stats_body os m)) = top_proc_label m \<or>
   truncated_name_of os (top_proc_label (snd (stats_body os m)))"
proof -
  let ?R = "\<lambda>a b. top_proc_label b = top_proc_label a \<or> truncated_name_of os (top_proc_label b)"
  show ?thesis
  proof (rule stats_body_rel [where R = ?R])
    show "\<And>m. ?R m (snd (cpu_section os m))"
      by (simp add: cpu_section_def Let_def split: sum.split option.split)
    show "\<And>m. ?R m (snd (mem_section os m))"
      by (simp add: mem_section_def split: sum.split)
    show "\<And>m. ?R m (snd (gpu_section os m))"
      by (simp add: gpu_section_def split: prod.split)
    show "\<And>m. ?R m (snd (net_section os m))"
      by (simp add: net_section_def Let_def draw_network_graph_def split: sum.split)
    show "\<And>m. ?R m (snd (swap_section os m))"
      by (simp add: swap_section_def split: sum.split)
    show "\<And>m. ?R m (snd (proc_count_section os m))"
      by (simp add: proc_count_section_def split: sum.split)
    show "\<And>m. ?R m (snd (battery_section os m))"
      by (simp add: battery_section_def Let_def split: sum.split option.split)
    show "\<And>m. ?R m (snd (top_proc_section os m))"
      by (rule top_proc_section_label)
    show "\<And>m. ?R m (snd (footer_section os m))"
      by (simp add: footer_section_def Let_def split: sum.split)
  qed auto
qed

lemma top_proc_label_update_stats:
  "top_proc_label (snd (update_stats os m)) = top_proc_label m \<or>
   truncated_name_of os (top_proc_label (snd (update_stats os m)))"
  using top_proc_label_stats_body [of os m]
  by (cases "stats_body os m") (auto simp: update_stats_def root_after_def split: option.split)

lemma top_proc_label_ticks:
  "top_proc_label (ticks oss m) = top_proc_label m \<or>
   (\<exists>os\<in>set oss. truncated_name_of os (top_proc_label (ticks oss m)))"
proof (induction oss arbitrary: m)
  case Nil
  then show ?case by simp
next
  case (Cons os oss)
  let ?m1 = "snd (update_stats os m)"
  from Cons.IH [of ?m1] show ?case
  proof
    assume same: "top_proc_label (ticks oss ?m1) = top_proc_label ?m1"
    from top_proc_label_update_stats [of os m] show ?thesis
    proof
      assume "top_proc_label ?m1 = top_proc_label m"
      then show ?thesis using same by simp
    next
      assume "truncated_name_of os (top_proc_label ?m1)"
      then show ?thesis using same by simp
    qed
  next
    assume "\<exists>os'\<in>set oss. truncated_name_of os' (top_proc_label (ticks oss ?m1))"
    then show ?thesis by auto
  qed
qed

text \<open>
  Claim C10. A tick either leaves the top-process label as it was or sets it to the name
  of a process of the table read in that tick, cut to its first 10 characters: a prefix
  of the reported name of length at most 10. Hence after any number of ticks the label is
  the initial placeholder or such a truncated name from one of the ticks.
\<close>

theorem top_process_name_is_truncated_prefix:
  "(top_proc_label (snd (update_stats os m)) = top_proc_label m \<or>
    (\<exists>table p n. process_iter os = Inr table \<and> p \<in> set table \<and> info_name p = Some n \<and>
        top_proc_label (snd (update_stats os m)) = [Lit (take 10 n)] \<and>
        length (take 10 n) \<le> 10 \<and> (\<exists>rest. n = take 10 n @ rest))) \<and>
   (top_proc_label (ticks oss (init io0 t0)) = [Lit ''...''] \<or>
    (\<exists>os'\<in>set oss. truncated_name_of os' (top_proc_label (ticks oss (init io0 t0)))))"
proof -
  have "top_proc_label (init io0 t0) = [Lit ''...'']" by (simp add: init_def)
  then have run: "top_proc_label (ticks oss (init io0 t0)) = [Lit ''...''] \<or>
      (\<exists>os'\<in>set oss. truncated_name_of os' (top_proc_label (ticks oss (init io0 t0))))"
    using top_proc_label_ticks [of oss "init io0 t0"] by simp
  have "top_proc_label (snd (update_stats os m)) = top_proc_label m \<or>
      truncated_name_of os (top_proc_label (snd (update_stats os m)))"
    by (rule top_proc_label_update_stats)
  then have tick: "top_proc_label (snd (update_stats os m)) = top_proc_label m \<or>
    (\<exists>table p n. process_iter os = Inr table \<and> p \<in> set table \<and> info_name p = Some n \<and>
        top_proc_label (snd (update_stats os m)) = [Lit (take 10 n)] \<and>
        length (take 10 n) \<le> 10 \<and> (\<exists>rest. n = take 10 n @ rest))"
    using truncated_name_ofD [of os "top_proc_label (snd (update_stats os m))"] by blast
  show ?thesis using tick run by blast
qed

subsection \<open>The network section\<close>

lemma then_section_raise: "f m = (Some e, m') \<Longrightarrow> then_section f g m = (Some e, m')"
  by (simp add: then_section_def)

lemma then_section_go: "f m = (None, m') \<Longrightarrow> then_section f g m = g m'"
  by (simp add: then_section_def)

lemma net_view_cpu_section: "net_view (snd (cpu_section os m)) = net_view m"
  by (simp add: cpu_section_def net_view_def Let_def split: sum.split option.split)

lemma net_view_mem_section: "net_view (snd (mem_section os m)) = net_view m"
  by (simp add: mem_section_def net_view_def split: sum.split)

lemma net_view_gpu_section: "net_view (snd (gpu_section os m)) = net_view m"
  by (simp add: gpu_section_def net_view_def split: prod.split)

lemma net_view_swap_section: "net_view (snd (swap_section os m)) = net_view m"
  by (simp add: swap_section_def net_view_def split: sum.split)

lemma net_view_proc_count_section: "net_view (snd (proc_count_section os m)) = net_view m"
  by (simp add: proc_count_section_def net_view_def split: sum.split)

lemma net_view_battery_section: "net_view (snd (battery_section os m)) = net_view m"
  by (simp add: battery_section_def net_view_def Let_def split: sum.split option.split)

lemma net_view_top_proc_section: "net_view (snd (top_proc_section os m)) = net_view m"
  by (simp add: top_proc_section_def net_view_def split: sum.split option.split)

lemma net_view_footer_section: "net_view (snd (footer_section os m)) = net_view m"
  by (simp add: footer_section_def net_view_def Let_def split: sum.split)

lemma net_view_after_net:
  "net_view (snd (then_section (swap_section os)
      (then_section (proc_count_section os)
      (then_section (battery_section os)
      (then_section (top_proc_section os) (footer_section os)))) m)) = net_view m"
proof -
  let ?R = "\<lambda>a b. net_view b = net_view a"
  show ?thesis
    by (intro then_section_rel [where R = ?R])
       (simp_all add: net_view_swap_section net_view_proc_count_section
          net_view_battery_section net_view_top_proc_section net_view_footer_section)
qed

lemma net_section_congruent:
  "net_view m' = net_view m \<Longrightarrow>
   net_view (snd (net_section os m')) = net_view (snd (net_section os m)) \<and>
   fst (net_section os m') = fst (net_section os m)"
  by (simp add: net_section_def net_view_def Let_def draw_network_graph_def truediv_def
      split: sum.split)

lemma net_view_from_net:
  "net_view (snd (then_section (net_section os)
      (then_section (swap_section os)
      (then_section (proc_count_section os)
      (then_section (battery_section os)
      (then_section (top_proc_section os) (footer_section os))))) m)) =
   net_view (snd (net_section os m))"
proof (cases "net_section os m")
  case (Pair r m')
  show ?thesis
  proof (cases r)
    case None
    then show ?thesis using Pair by (simp add: then_section_go net_view_after_net)
  next
    case (Some e)
    then show ?thesis using Pair by (simp add: then_section_raise)
  qed
qed

text \<open>
  The first three sections either raise, and then the network state is what it was, or
  hand over to the network section a state with the same network part.
\<close>

lemma stats_body_net_view:
  "net_view (snd (stats_body os m)) = net_view m \<or>
   net_view (snd (stats_body os m)) = net_view (snd (net_section os m))"
proof -
  let ?rest = "then_section (net_section os)
      (then_section (swap_section os)
      (then_section (proc_count_section os)
      (then_section (battery_section os)
      (then_section (top_proc_section os) (footer_section os)))))"
  let ?front = "then_section (cpu_section os) (then_section (mem_section os) (gpu_section os))"
  have body: "stats_body os m =
      (case ?front m of (None, m') \<Rightarrow> ?rest m' | (Some e, m') \<Rightarrow> (Some e, m'))"
    by (simp add: stats_body_def then_section_def split: prod.split option.split)
  have front: "net_view (snd (?front m)) = net_view m"
    by (intro then_section_rel [where R = "\<lambda>a b. net_view b = net_view a"])
       (simp_all add: net_view_cpu_section net_view_mem_section net_view_gpu_section)
  obtain r m' where fm: "?front m = (r, m')" by (cases "?front m")
  then have v: "net_view m' = net_view m" using front by simp
  show ?thesis
  proof (cases r)
    case None
    then have "stats_body os m = ?rest m'" using body fm by simp
    then have "net_view (snd (stats_body os m)) = net_view (snd (net_section os m'))"
      by (simp add: net_view_from_net)
    then show ?thesis using net_section_congruent [OF v] by simp
  next
    case (Some e)
    then have "stats_body os m = (Some e, m')" using body fm by simp
    then show ?thesis using v by simp
  qed
qed

lemma net_view_update_stats: "net_view (snd (update_stats os m)) = net_view (snd (stats_body os m))"
  by (cases "stats_body os m")
     (simp add: update_stats_def root_after_def net_view_def split: option.split)

lemma fst_then_section:
  "fst (f m) = None \<Longrightarrow> then_section f g m = g (snd (f m))"
  by (cases "f m") (simp add: then_section_def)

lemma front_reads_okD:
  assumes "front_reads_ok os"
  obtains c fq n vm where "cpu_percent os = Inr c" "cpu_freq os = Inr fq"
    "cpu_count os = Inr n" "virtual_memory os = Inr vm"
proof -
  obtain c where c: "cpu_percent os = Inr c"
    using assms by (cases "cpu_percent os") (simp_all add: front_reads_ok_def)
  obtain fq where fq: "cpu_freq os = Inr fq"
    using assms by (cases "cpu_freq os") (simp_all add: front_reads_ok_def)
  obtain n where n: "cpu_count os = Inr n"
    using assms by (cases "cpu_count os") (simp_all add: front_reads_ok_def)
  obtain vm where vm: "virtual_memory os = Inr vm"
    using assms by (cases "virtual_memory os") (simp_all add: front_reads_ok_def)
  from c fq n vm that show thesis by blast
qed

lemma fst_cpu_section:
  assumes "front_reads_ok os"
  shows "fst (cpu_section os m) = None"
proof -
  from assms obtain c fq n where "cpu_percent os = Inr c" "cpu_freq os = Inr fq"
    "cpu_count os = Inr n" by (rule front_reads_okD)
  then show ?thesis by (simp add: cpu_section_def Let_def split: option.split)
qed

lemma fst_mem_section:
  assumes "front_reads_ok os"
  shows "fst (mem_section os m) = None"
proof -
  from assms obtain vm where "virtual_memory os = Inr vm" by (rule front_reads_okD)
  then show ?thesis by (simp add: mem_section_def)
qed

lemma fst_gpu_section: "fst (gpu_section os m) = None"
  by (simp add: gpu_section_def split: prod.split)

lemma fst_swap_section: "fst (swap_section os m) = None"
  by (simp add: swap_section_def split: sum.split)

lemma fst_proc_count_section: "fst (proc_count_section os m) = None"
  by (simp add: proc_count_section_def split: sum.split)

lemma fst_top_proc_section: "fst (top_proc_section os m) = None"
  by (simp add: top_proc_section_def split: sum.split option.split)

lemma stats_body_reaches_net:
  assumes "front_reads_ok os"
  shows "net_view (snd (stats_body os m)) = net_view (snd (net_section os m))"
proof -
  let ?m1 = "snd (cpu_section os m)"
  let ?m2 = "snd (mem_section os ?m1)"
  let ?m3 = "snd (gpu_section os ?m2)"
  have "stats_body os m =
      then_section (net_section os)
        (then_section (swap_section os)
        (then_section (proc_count_section os)
        (then_section (battery_section os)
        (then_section (top_proc_section os) (footer_section os))))) ?m3"
    unfolding stats_body_def
    by (simp only: fst_then_section [OF fst_cpu_section [OF assms]]
        fst_then_section [OF fst_mem_section [OF assms]] fst_then_section [OF fst_gpu_section])
  then have a: "net_view (snd (stats_body os m)) = net_view (snd (net_section os ?m3))"
    by (simp add: net_view_from_net)
  have "net_view ?m3 = net_view m"
    by (simp add: net_view_gpu_section net_view_mem_section net_view_cpu_section)
  then have "net_view (snd (net_section os ?m3)) = net_view (snd (net_section os m))"
    by (rule net_section_congruent [THEN conjunct1])
  with a show ?thesis by (rule trans)
qed

lemma update_stats_reaches_net:
  "front_reads_ok os \<Longrightarrow> net_view (snd (update_stats os m)) = net_view (snd (net_section os m))"
  by (simp add: net_view_update_stats stats_body_reaches_net)

lemma total_seconds_pos: "0 < total_seconds d \<longleftrightarrow> 0 < d"
  by (simp add: total_seconds_def)

lemma net_section_positive:
  assumes "net_io_counters os = Inr io" "0 < total_seconds (now os - last_update m)"
  shows "net_view (snd (net_section os m)) =
     (io, now os,
      deque_append (net_up_history m)
        (real_of_int (bytes_sent io - bytes_sent (last_net_io m)) /
           total_seconds (now os - last_update m)),
      deque_append (net_down_history m)
        (real_of_int (bytes_recv io - bytes_recv (last_net_io m)) /
           total_seconds (now os - last_update m)),
      format_speed (real_of_int (bytes_sent io - bytes_sent (last_net_io m)) /
           total_seconds (now os - last_update m)),
      format_speed (real_of_int (bytes_recv io - bytes_recv (last_net_io m)) /
           total_seconds (now os - last_update m)),
      format_bytes (real_of_int (bytes_sent io)),
      format_bytes (real_of_int (bytes_recv io)))"
  using assms
  by (simp add: net_section_def net_view_def Let_def draw_network_graph_def truediv_def)

lemma net_section_nonpositive:
  assumes "net_io_counters os = Inr io" "total_seconds (now os - last_update m) \<le> 0"
  shows "net_section os m = (None, m\<lparr> last_net_io := io, last_update := now os \<rparr>)"
  using assms by (simp add: net_section_def Let_def)

lemma net_section_raises:
  "net_io_counters os = Inl e \<Longrightarrow> net_section os m = (Some e, m)"
  by (simp add: net_section_def)

lemma fst_net_section:
  "fst (net_section os m) = (case net_io_counters os of Inl e \<Rightarrow> Some e | Inr io \<Rightarrow> None)"
  by (simp add: net_section_def Let_def truediv_def draw_network_graph_def split: sum.split)

text \<open>
  Claim C4. On a tick whose time delta (current clock minus stored timestamp, in seconds)
  is zero or negative, the rate computation is skipped: the upload and download rate
  labels and the two rate histories are what they were before the tick. The division is
  only ever reached with a positive divisor: the network section raises nothing except
  what the read of the network counters itself raises, so no \<open>ZeroDivisionError\<close> comes
  out of it.
\<close>

theorem nonpositive_delta_skips_rate:
  "(total_seconds (now os - last_update m) \<le> 0 \<longrightarrow>
      net_up_label (snd (update_stats os m)) = net_up_label m \<and>
      net_down_label (snd (update_stats os m)) = net_down_label m \<and>
      net_up_history (snd (update_stats os m)) = net_up_history m \<and>
      net_down_history (snd (update_stats os m)) = net_down_history m) \<and>
   fst (net_section os m) = (case net_io_counters os of Inl e \<Rightarrow> Some e | Inr io \<Rightarrow> None)"
proof -
  have "net_up_label (snd (update_stats os m)) = net_up_label m \<and>
      net_down_label (snd (update_stats os m)) = net_down_label m \<and>
      net_up_history (snd (update_stats os m)) = net_up_history m \<and>
      net_down_history (snd (update_stats os m)) = net_down_history m"
    if le: "total_seconds (now os - last_update m) \<le> 0"
  proof -
    have skip: "net_up_label (snd (net_section os m)) = net_up_label m \<and>
        net_down_label (snd (net_section os m)) = net_down_label m \<and>
        net_up_history (snd (net_section os m)) = net_up_history m \<and>
        net_down_history (snd (net_section os m)) = net_down_history m"
    proof (cases "net_io_counters os")
      case (Inl e)
      then show ?thesis by (simp add: net_section_raises)
    next
      case (Inr io)
      then show ?thesis using le by (simp add: net_section_nonpositive)
    qed
    from stats_body_net_view [of os m]
    have "net_view (snd (update_stats os m)) = net_view m \<or>
        net_view (snd (update_stats os m)) = net_view (snd (net_section os m))"
      by (simp add: net_view_update_stats)
    then show ?thesis using skip by (auto simp: net_view_def)
  qed
  then show ?thesis by (simp add: fst_net_section)
qed

theorem nonpositive_delta_skips_rate_witness:
  "total_seconds (now (healthy_reads\<lparr> now := 0 \<rparr>) - last_update (init io_zero 0)) \<le> 0 \<and>
   net_up_label (snd (update_stats (healthy_reads\<lparr> now := 0 \<rparr>) (init io_zero 0))) = [Lit ''0 B/s''] \<and>
   net_down_label (snd (update_stats (healthy_reads\<lparr> now := 0 \<rparr>) (init io_zero 0))) = [Lit ''0 B/s'']"
proof -
  have le: "total_seconds (now (healthy_reads\<lparr> now := 0 \<rparr>) - last_update (init io_zero 0)) \<le> 0"
    by (simp add: total_seconds_def init_def)
  show ?thesis
    using nonpositive_delta_skips_rate [of "healthy_reads\<lparr> now := 0 \<rparr>" "init io_zero 0"] le
    by (simp add: init_def)
qed

lemma update_stats_positive:
  assumes "front_reads_ok os" "net_io_counters os = Inr io"
    "0 < total_seconds (now os - last_update m)"
  shows "last_net_io (snd (update_stats os m)) = io"
    and "last_update (snd (update_stats os m)) = now os"
    and "net_up_history (snd (update_stats os m)) =
      deque_append (net_up_history m)
        (real_of_int (bytes_sent io - bytes_sent (last_net_io m)) /
           total_seconds (now os - last_update m))"
    and "net_down_history (snd (update_stats os m)) =
      deque_append (net_down_history m)
        (real_of_int (bytes_recv io - bytes_recv (last_net_io m)) /
           total_seconds (now os - last_update m))"
    and "net_up_label (snd (update_stats os m)) =
      format_speed (real_of_int (bytes_sent io - bytes_sent (last_net_io m)) /
           total_seconds (now os - last_update m))"
    and "net_down_label (snd (update_stats os m)) =
      format_speed (real_of_int (bytes_recv io - bytes_recv (last_net_io m)) /
           total_seconds (now os - last_update m))"
    and "total_tx_label (snd (update_stats os m)) = format_bytes (real_of_int (bytes_sent io))"
    and "total_rx_label (snd (update_stats os m)) = format_bytes (real_of_int (bytes_recv io))"
proof -
  have "net_view (snd (update_stats os m)) = net_view (snd (net_section os m))"
    using assms(1) by (rule update_stats_reaches_net)
  then have v: "net_view (snd (update_stats os m)) =
     (io, now os,
      deque_append (net_up_history m)
        (real_of_int (bytes_sent io - bytes_sent (last_net_io m)) /
           total_seconds (now os - last_update m)),
      deque_append (net_down_history m)
        (real_of_int (bytes_recv io - bytes_recv (last_net_io m)) /
           total_seconds (now os - last_update m)),
      format_speed (real_of_int (bytes_sent io - bytes_sent (last_net_io m)) /
           total_seconds (now os - last_update m)),
      format_speed (real_of_int (bytes_recv io - bytes_recv (last_net_io m)) /
           total_seconds (now os - last_update m)),
      format_bytes (real_of_int (bytes_sent io)),
      format_bytes (real_of_int (bytes_recv io)))"
    by (simp only: net_section_positive [OF assms(2,3)])
  from v show "last_net_io (snd (update_stats os m)) = io" by (simp add: net_view_def)
  from v show "last_update (snd (update_stats os m)) = now os" by (simp add: net_view_def)
  from v show "net_up_history (snd (update_stats os m)) =
      deque_append (net_up_history m)
        (real_of_int (bytes_sent io - bytes_sent (last_net_io m)) /
           total_seconds (now os - last_update m))" by (simp add: net_view_def)
  from v show "net_down_history (snd (update_stats os m)) =
      deque_append (net_down_history m)
        (real_of_int (bytes_recv io - bytes_recv (last_net_io m)) /
           total_seconds (now os - last_update m))" by (simp add: net_view_def)
  from v show "net_up_label (snd (update_stats os m)) =
      format_speed (real_of_int (bytes_sent io - bytes_sent (last_net_io m)) /
           total_seconds (now os - last_update m))" by (simp add: net_view_def)
  from v show "net_down_label (snd (update_stats os m)) =
      format_speed (real_of_int (bytes_recv io - bytes_recv (last_net_io m)) /
           total_seconds (now os - last_update m))" by (simp add: net_view_def)
  from v show "total_tx_label (snd (update_stats os m)) = format_bytes (real_of_int (bytes_sent io))"
    by (simp add: net_view_def)
  from v show "total_rx_label (snd (update_stats os m)) = format_bytes (real_of_int (bytes_recv io))"
    by (simp add: net_view_def)
qed

lemma update_stats_nonpositive:
  assumes "front_reads_ok os" "net_io_counters os = Inr io"
    "total_seconds (now os - last_update m) \<le> 0"
  shows "last_net_io (snd (update_stats os m)) = io"
    and "last_update (snd (update_stats os m)) = now os"
    and "net_up_history (snd (update_stats os m)) = net_up_history m"
    and "net_down_history (snd (update_stats os m)) = net_down_history m"
    and "net_up_label (snd (update_stats os m)) = net_up_label m"
    and "net_down_label (snd (update_stats os m)) = net_down_label m"
    and "total_tx_label (snd (update_stats os m)) = total_tx_label m"
    and "total_rx_label (snd (update_stats os m)) = total_rx_label m"
proof -
  have "net_view (snd (update_stats os m)) = net_view (snd (net_section os m))"
    using assms(1) by (rule update_stats_reaches_net)
  then have v: "net_view (snd (update_stats os m)) =
      net_view (m\<lparr> last_net_io := io, last_update := now os \<rparr>)"
    by (simp only: net_section_nonpositive [OF assms(2,3)] snd_conv)
  from v show "last_net_io (snd (update_stats os m)) = io" by (simp add: net_view_def)
  from v show "last_update (snd (update_stats os m)) = now os" by (simp add: net_view_def)
  from v show "net_up_history (snd (update_stats os m)) = net_up_history m" by (simp add: net_view_def)
  from v show "net_down_history (snd (update_stats os m)) = net_down_history m"
    by (simp add: net_view_def)
  from v show "net_up_label (snd (update_stats os m)) = net_up_label m" by (simp add: net_view_def)
  from v show "net_down_label (snd (update_stats os m)) = net_down_label m" by (simp add: net_view_def)
  from v show "total_tx_label (snd (update_stats os m)) = total_tx_label m" by (simp add: net_view_def)
  from v show "total_rx_label (snd (update_stats os m)) = total_rx_label m" by (simp add: net_view_def)
qed

lemma front_reads_ok_healthy: "front_reads_ok healthy_reads"
  by (simp add: front_reads_ok_def healthy_reads_def)

text \<open>
  Claim C9. On a tick that reaches the network section (the reads before it return) and
  whose time delta is zero or negative, the rate labels, the upload and download
  histories and the total TX/RX labels are left as they were, while the stored previous
  counter sample and the stored timestamp are replaced by the current ones. So the rate
  of the next tick with a positive delta is computed from this tick's sample and clock.
\<close>

theorem nonpositive_delta_replaces_previous_sample:
  assumes "front_reads_ok os" "net_io_counters os = Inr io"
    "total_seconds (now os - last_update m) \<le> 0"
  shows "net_up_label (snd (update_stats os m)) = net_up_label m \<and>
    net_down_label (snd (update_stats os m)) = net_down_label m \<and>
    net_up_history (snd (update_stats os m)) = net_up_history m \<and>
    net_down_history (snd (update_stats os m)) = net_down_history m \<and>
    total_tx_label (snd (update_stats os m)) = total_tx_label m \<and>
    total_rx_label (snd (update_stats os m)) = total_rx_label m \<and>
    last_net_io (snd (update_stats os m)) = io \<and>
    last_update (snd (update_stats os m)) = now os \<and>
    (front_reads_ok os2 \<and> net_io_counters os2 = Inr io2 \<and>
     0 < total_seconds (now os2 - now os) \<longrightarrow>
       net_up_history (snd (update_stats os2 (snd (update_stats os m)))) =
         deque_append (net_up_history m)
           (real_of_int (bytes_sent io2 - bytes_sent io) / total_seconds (now os2 - now os)) \<and>
       net_down_history (snd (update_stats os2 (snd (update_stats os m)))) =
         deque_append (net_down_history m)
           (real_of_int (bytes_recv io2 - bytes_recv io) / total_seconds (now os2 - now os)))"
proof -
  note first = update_stats_nonpositive [OF assms]
  have "net_up_history (snd (update_stats os2 (snd (update_stats os m)))) =
         deque_append (net_up_history m)
           (real_of_int (bytes_sent io2 - bytes_sent io) / total_seconds (now os2 - now os)) \<and>
       net_down_history (snd (update_stats os2 (snd (update_stats os m)))) =
         deque_append (net_down_history m)
           (real_of_int (bytes_recv io2 - bytes_recv io) / total_seconds (now os2 - now os))"
    if h: "front_reads_ok os2 \<and> net_io_counters os2 = Inr io2 \<and>
     0 < total_seconds (now os2 - now os)"
  proof -
    have pos: "0 < total_seconds (now os2 - last_update (snd (update_stats os m)))"
      using h first(2) by simp
    from h have a: "front_reads_ok os2" and b: "net_io_counters os2 = Inr io2" by simp_all
    show ?thesis
      using update_stats_positive(3,4) [OF a b pos] first(1,2,3,4) by simp
  qed
  then show ?thesis using first by blast
qed

theorem nonpositive_delta_replaces_previous_sample_witness:
  "last_net_io (snd (update_stats (healthy_reads\<lparr> now := 0 \<rparr>) (init io_zero 0))) =
     \<lparr> bytes_sent = 3000, bytes_recv = 5000 \<rparr> \<and>
   last_update (snd (update_stats (healthy_reads\<lparr> now := 0 \<rparr>) (init io_zero 0))) = 0 \<and>
   net_up_label (snd (update_stats (healthy_reads\<lparr> now := 0 \<rparr>) (init io_zero 0))) = [Lit ''0 B/s''] \<and>
   net_up_history
     (snd (update_stats (healthy_reads\<lparr> net_io_counters := Inr \<lparr> bytes_sent = 4000, bytes_recv = 5000 \<rparr> \<rparr>)
        (snd (update_stats (healthy_reads\<lparr> now := 0 \<rparr>) (init io_zero 0))))) =
     deque_append (net_up_history (init io_zero 0)) 1000"
proof -
  let ?a = "healthy_reads\<lparr> now := 0 \<rparr>"
  let ?b = "healthy_reads\<lparr> net_io_counters := Inr \<lparr> bytes_sent = 4000, bytes_recv = 5000 \<rparr> \<rparr>"
  have a1: "front_reads_ok ?a" by (simp add: front_reads_ok_def healthy_reads_def)
  have a2: "net_io_counters ?a = Inr \<lparr> bytes_sent = 3000, bytes_recv = 5000 \<rparr>"
    by (simp add: healthy_reads_def)
  have a3: "total_seconds (now ?a - last_update (init io_zero 0)) \<le> 0"
    by (simp add: total_seconds_def init_def)
  have b1: "front_reads_ok ?b" by (simp add: front_reads_ok_def healthy_reads_def)
  have b2: "net_io_counters ?b = Inr \<lparr> bytes_sent = 4000, bytes_recv = 5000 \<rparr>" by simp
  have b3: "0 < total_seconds (now ?b - now ?a)"
    by (simp add: total_seconds_def healthy_reads_def)
  have r: "real_of_int (bytes_sent \<lparr> bytes_sent = 4000, bytes_recv = 5000 \<rparr> -
        bytes_sent \<lparr> bytes_sent = 3000, bytes_recv = 5000 \<rparr>) / total_seconds (now ?b - now ?a) = 1000"
    by (simp add: total_seconds_def healthy_reads_def)
  have l: "net_up_label (init io_zero 0) = [Lit ''0 B/s'']" by (simp add: init_def)
  note t = nonpositive_delta_replaces_previous_sample [OF a1 a2 a3, of ?b
        "\<lparr> bytes_sent = 4000, bytes_recv = 5000 \<rparr>"]
  from t have c1: "last_net_io (snd (update_stats ?a (init io_zero 0))) =
      \<lparr> bytes_sent = 3000, bytes_recv = 5000 \<rparr>" by blast
  from t have "last_update (snd (update_stats ?a (init io_zero 0))) = now ?a" by blast
  then have c2: "last_update (snd (update_stats ?a (init io_zero 0))) = 0" by simp
  from t have c3: "net_up_label (snd (update_stats ?a (init io_zero 0))) = net_up_label (init io_zero 0)"
    by blast
  from t b1 b2 b3 have c4: "net_up_history (snd (update_stats ?b (snd (update_stats ?a (init io_zero 0))))) =
      deque_append (net_up_history (init io_zero 0))
        (real_of_int (bytes_sent \<lparr> bytes_sent = 4000, bytes_recv = 5000 \<rparr> -
           bytes_sent \<lparr> bytes_sent = 3000, bytes_recv = 5000 \<rparr>) /
         total_seconds (now ?b - now ?a))" by blast
  show ?thesis by (simp only: c1 c2 c3 c4 r l simp_thms)
qed

lemma last_history_after_append:
  "histories_full m \<Longrightarrow> last (items (deque_append (net_up_history m) v)) = v"
  by (simp add: histories_full_def last_deque_append)

text \<open>
  Claim C3, as amended. With a positive time delta, on a tick that reaches the network
  section, the upload rate pushed to the history and shown on the label is
  \<open>(curr.bytes_sent - prev.bytes_sent) / delta\<close>, and likewise for the download rate.
  There is no clamping at 0: when the cumulative counter has decreased the rate is
  negative; the value agrees with \<open>max(0, curr - prev) / delta\<close> when the counter has not
  decreased.
\<close>

theorem rate_is_unclamped_quotient:
  assumes "front_reads_ok os" "net_io_counters os = Inr io"
    "0 < total_seconds (now os - last_update m)"
  shows "net_up_history (snd (update_stats os m)) =
      deque_append (net_up_history m)
        (real_of_int (bytes_sent io - bytes_sent (last_net_io m)) /
           total_seconds (now os - last_update m)) \<and>
    net_down_history (snd (update_stats os m)) =
      deque_append (net_down_history m)
        (real_of_int (bytes_recv io - bytes_recv (last_net_io m)) /
           total_seconds (now os - last_update m)) \<and>
    net_up_label (snd (update_stats os m)) =
      format_speed (real_of_int (bytes_sent io - bytes_sent (last_net_io m)) /
           total_seconds (now os - last_update m)) \<and>
    net_down_label (snd (update_stats os m)) =
      format_speed (real_of_int (bytes_recv io - bytes_recv (last_net_io m)) /
           total_seconds (now os - last_update m)) \<and>
    (bytes_sent io < bytes_sent (last_net_io m) \<longrightarrow>
      real_of_int (bytes_sent io - bytes_sent (last_net_io m)) /
        total_seconds (now os - last_update m) < 0) \<and>
    (bytes_recv io < bytes_recv (last_net_io m) \<longrightarrow>
      real_of_int (bytes_recv io - bytes_recv (last_net_io m)) /
        total_seconds (now os - last_update m) < 0) \<and>
    (bytes_sent (last_net_io m) \<le> bytes_sent io \<longrightarrow>
      real_of_int (bytes_sent io - bytes_sent (last_net_io m)) /
        total_seconds (now os - last_update m) =
      max 0 (real_of_int (bytes_sent io - bytes_sent (last_net_io m))) /
        total_seconds (now os - last_update m))"
proof -
  note u = update_stats_positive(3,4,5,6) [OF assms]
  have neg: "real_of_int d / total_seconds (now os - last_update m) < 0" if "d < 0" for d
    using that assms(3) by (simp add: divide_neg_pos)
  have a: "bytes_sent io < bytes_sent (last_net_io m) \<longrightarrow>
      real_of_int (bytes_sent io - bytes_sent (last_net_io m)) /
        total_seconds (now os - last_update m) < 0"
    using neg [of "bytes_sent io - bytes_sent (last_net_io m)"] by simp
  have b: "bytes_recv io < bytes_recv (last_net_io m) \<longrightarrow>
      real_of_int (bytes_recv io - bytes_recv (last_net_io m)) /
        total_seconds (now os - last_update m) < 0"
    using neg [of "bytes_recv io - bytes_recv (last_net_io m)"] by simp
  have c: "bytes_sent (last_net_io m) \<le> bytes_sent io \<longrightarrow>
      real_of_int (bytes_sent io - bytes_sent (last_net_io m)) /
        total_seconds (now os - last_update m) =
      max 0 (real_of_int (bytes_sent io - bytes_sent (last_net_io m))) /
        total_seconds (now os - last_update m)"
    by (simp add: max_def)
  show ?thesis using u a b c by blast
qed

theorem rate_is_unclamped_quotient_witness:
  "net_up_history (snd (update_stats healthy_reads (init \<lparr> bytes_sent = 5000, bytes_recv = 5000 \<rparr> 0))) =
     deque_append (net_up_history (init \<lparr> bytes_sent = 5000, bytes_recv = 5000 \<rparr> 0)) (- 2000) \<and>
   net_down_history (snd (update_stats healthy_reads (init \<lparr> bytes_sent = 5000, bytes_recv = 5000 \<rparr> 0))) =
     deque_append (net_down_history (init \<lparr> bytes_sent = 5000, bytes_recv = 5000 \<rparr> 0)) 0"
proof -
  let ?m = "init \<lparr> bytes_sent = 5000, bytes_recv = 5000 \<rparr> 0"
  let ?io = "\<lparr> bytes_sent = 3000, bytes_recv = 5000 \<rparr>"
  have a: "net_io_counters healthy_reads = Inr ?io" by (simp add: healthy_reads_def)
  have b: "0 < total_seconds (now healthy_reads - last_update ?m)"
    by (simp add: total_seconds_def healthy_reads_def init_def)
  have up: "real_of_int (bytes_sent ?io - bytes_sent (last_net_io ?m)) /
      total_seconds (now healthy_reads - last_update ?m) = - 2000"
    by (simp add: total_seconds_def healthy_reads_def init_def)
  have down: "real_of_int (bytes_recv ?io - bytes_recv (last_net_io ?m)) /
      total_seconds (now healthy_reads - last_update ?m) = 0"
    by (simp add: total_seconds_def healthy_reads_def init_def)
  note t = rate_is_unclamped_quotient [OF front_reads_ok_healthy a b]
  from t have c1: "net_up_history (snd (update_stats healthy_reads ?m)) =
      deque_append (net_up_history ?m)
        (real_of_int (bytes_sent ?io - bytes_sent (last_net_io ?m)) /
           total_seconds (now healthy_reads - last_update ?m))" by blast
  from t have c2: "net_down_history (snd (update_stats healthy_reads ?m)) =
      deque_append (net_down_history ?m)
        (real_of_int (bytes_recv ?io - bytes_recv (last_net_io ?m)) /
           total_seconds (now healthy_reads - last_update ?m))" by blast
  show ?thesis by (simp only: c1 c2 up down simp_thms)
qed

text \<open>
  Claim C3 as stated fails: with the sent counter going from 5000 to 3000 in one second,
  the upload rate recorded and displayed is \<open>-2000\<close>, where the clamped formula gives 0.
\<close>

theorem counter_reset_gives_negative_rate:
  "last (items (net_up_history
      (snd (update_stats healthy_reads (init \<lparr> bytes_sent = 5000, bytes_recv = 5000 \<rparr> 0))))) = - 2000 \<and>
   net_up_label (snd (update_stats healthy_reads (init \<lparr> bytes_sent = 5000, bytes_recv = 5000 \<rparr> 0))) =
     [Fixed 0 (- 2000), Lit '' B/s''] \<and>
   net_io_counters healthy_reads = Inr \<lparr> bytes_sent = 3000, bytes_recv = 5000 \<rparr> \<and>
   max 0 (real_of_int (3000 - 5000)) / total_seconds (now healthy_reads - 0) = 0"
proof -
  let ?m = "init \<lparr> bytes_sent = 5000, bytes_recv = 5000 \<rparr> 0"
  let ?io = "\<lparr> bytes_sent = 3000, bytes_recv = 5000 \<rparr>"
  have a: "net_io_counters healthy_reads = Inr ?io" by (simp add: healthy_reads_def)
  have b: "0 < total_seconds (now healthy_reads - last_update ?m)"
    by (simp add: total_seconds_def healthy_reads_def init_def)
  have up: "real_of_int (bytes_sent ?io - bytes_sent (last_net_io ?m)) /
      total_seconds (now healthy_reads - last_update ?m) = - 2000"
    by (simp add: total_seconds_def healthy_reads_def init_def)
  have h: "net_up_history (snd (update_stats healthy_reads ?m)) = deque_append (net_up_history ?m) (- 2000)"
    by (simp only: update_stats_positive(3) [OF front_reads_ok_healthy a b] up)
  have l: "net_up_label (snd (update_stats healthy_reads ?m)) = format_speed (- 2000)"
    by (simp only: update_stats_positive(5) [OF front_reads_ok_healthy a b] up)
  have "last (items (net_up_history (snd (update_stats healthy_reads ?m)))) = - 2000"
    by (simp only: h last_history_after_append [OF histories_full_init])
  moreover have "format_speed (- 2000) = [Fixed 0 (- 2000), Lit '' B/s'']"
    by (simp add: format_speed_def)
  moreover have "max 0 (real_of_int (3000 - 5000)) / total_seconds (now healthy_reads - 0) = 0"
    by simp
  ultimately show ?thesis using a l by simp
qed

text \<open>
  Claim C2, as amended. The constructor already stores a counter sample and a timestamp,
  so there is no tick without a previous sample. On the first tick (when it reaches the
  network section) the rate is present exactly when the clock has advanced since the
  constructor: it is computed against the constructor's sample. Only with a clock that
  has not advanced are the rate labels and histories left at their initial content. On
  the second tick with a positive delta the rate is present, computed against the first
  tick's sample.
\<close>

theorem first_tick_has_rate:
  assumes "front_reads_ok os1" "net_io_counters os1 = Inr io1"
  shows "(t0 < now os1 \<longrightarrow>
      net_up_history (snd (update_stats os1 (init io0 t0))) =
        deque_append (net_up_history (init io0 t0))
          (real_of_int (bytes_sent io1 - bytes_sent io0) / total_seconds (now os1 - t0)) \<and>
      net_down_history (snd (update_stats os1 (init io0 t0))) =
        deque_append (net_down_history (init io0 t0))
          (real_of_int (bytes_recv io1 - bytes_recv io0) / total_seconds (now os1 - t0)) \<and>
      net_up_label (snd (update_stats os1 (init io0 t0))) =
        format_speed (real_of_int (bytes_sent io1 - bytes_sent io0) / total_seconds (now os1 - t0)) \<and>
      net_down_label (snd (update_stats os1 (init io0 t0))) =
        format_speed (real_of_int (bytes_recv io1 - bytes_recv io0) / total_seconds (now os1 - t0))) \<and>
    (now os1 \<le> t0 \<longrightarrow>
      net_up_history (snd (update_stats os1 (init io0 t0))) = net_up_history (init io0 t0) \<and>
      net_down_history (snd (update_stats os1 (init io0 t0))) = net_down_history (init io0 t0) \<and>
      net_up_label (snd (update_stats os1 (init io0 t0))) = [Lit ''0 B/s''] \<and>
      net_down_label (snd (update_stats os1 (init io0 t0))) = [Lit ''0 B/s'']) \<and>
    (front_reads_ok os2 \<and> net_io_counters os2 = Inr io2 \<and> now os1 < now os2 \<longrightarrow>
      net_up_label (snd (update_stats os2 (snd (update_stats os1 (init io0 t0))))) =
        format_speed (real_of_int (bytes_sent io2 - bytes_sent io1) /
          total_seconds (now os2 - now os1)) \<and>
      net_down_label (snd (update_stats os2 (snd (update_stats os1 (init io0 t0))))) =
        format_speed (real_of_int (bytes_recv io2 - bytes_recv io1) /
          total_seconds (now os2 - now os1)))"
proof -
  let ?m = "init io0 t0"
  have m: "last_net_io ?m = io0" "last_update ?m = t0"
    "net_up_label ?m = [Lit ''0 B/s'']" "net_down_label ?m = [Lit ''0 B/s'']"
    by (simp_all add: init_def)
  have first_pos: "net_up_history (snd (update_stats os1 ?m)) =
        deque_append (net_up_history ?m)
          (real_of_int (bytes_sent io1 - bytes_sent io0) / total_seconds (now os1 - t0)) \<and>
      net_down_history (snd (update_stats os1 ?m)) =
        deque_append (net_down_history ?m)
          (real_of_int (bytes_recv io1 - bytes_recv io0) / total_seconds (now os1 - t0)) \<and>
      net_up_label (snd (update_stats os1 ?m)) =
        format_speed (real_of_int (bytes_sent io1 - bytes_sent io0) / total_seconds (now os1 - t0)) \<and>
      net_down_label (snd (update_stats os1 ?m)) =
        format_speed (real_of_int (bytes_recv io1 - bytes_recv io0) / total_seconds (now os1 - t0))"
    if "t0 < now os1"
  proof -
    have pos: "0 < total_seconds (now os1 - last_update ?m)"
      using that by (simp add: m total_seconds_pos)
    show ?thesis using update_stats_positive(3,4,5,6) [OF assms pos] by (simp only: m simp_thms)
  qed
  have first_nonpos: "net_up_history (snd (update_stats os1 ?m)) = net_up_history ?m \<and>
      net_down_history (snd (update_stats os1 ?m)) = net_down_history ?m \<and>
      net_up_label (snd (update_stats os1 ?m)) = [Lit ''0 B/s''] \<and>
      net_down_label (snd (update_stats os1 ?m)) = [Lit ''0 B/s'']"
    if "now os1 \<le> t0"
  proof -
    have "\<not> 0 < total_seconds (now os1 - last_update ?m)"
      using that by (simp add: m total_seconds_pos)
    then have le: "total_seconds (now os1 - last_update ?m) \<le> 0" by simp
    show ?thesis using update_stats_nonpositive(3,4,5,6) [OF assms le] by (simp only: m simp_thms)
  qed
  have stored: "last_net_io (snd (update_stats os1 ?m)) = io1 \<and> last_update (snd (update_stats os1 ?m)) = now os1"
  proof (cases "0 < total_seconds (now os1 - last_update ?m)")
    case True
    then show ?thesis using update_stats_positive(1,2) [OF assms True] by simp
  next
    case False
    then have le: "total_seconds (now os1 - last_update ?m) \<le> 0" by simp
    show ?thesis using update_stats_nonpositive(1,2) [OF assms le] by simp
  qed
  have second: "net_up_label (snd (update_stats os2 (snd (update_stats os1 ?m)))) =
        format_speed (real_of_int (bytes_sent io2 - bytes_sent io1) /
          total_seconds (now os2 - now os1)) \<and>
      net_down_label (snd (update_stats os2 (snd (update_stats os1 ?m)))) =
        format_speed (real_of_int (bytes_recv io2 - bytes_recv io1) /
          total_seconds (now os2 - now os1))"
    if h: "front_reads_ok os2 \<and> net_io_counters os2 = Inr io2 \<and> now os1 < now os2"
  proof -
    from h have a: "front_reads_ok os2" and b: "net_io_counters os2 = Inr io2" by simp_all
    have pos: "0 < total_seconds (now os2 - last_update (snd (update_stats os1 ?m)))"
      using h stored by (simp add: total_seconds_pos)
    show ?thesis using update_stats_positive(5,6) [OF a b pos] stored by simp
  qed
  show ?thesis using first_pos first_nonpos second by blast
qed

theorem first_tick_has_rate_witness:
  "net_up_label (snd (update_stats healthy_reads (init io_zero 0))) = format_speed 3000 \<and>
   net_up_label (snd (update_stats (healthy_reads\<lparr> now := 0 \<rparr>) (init io_zero 0))) = [Lit ''0 B/s'']"
proof -
  let ?io = "\<lparr> bytes_sent = 3000, bytes_recv = 5000 \<rparr>"
  let ?late = "healthy_reads\<lparr> now := 0 \<rparr>"
  have a: "net_io_counters healthy_reads = Inr ?io" by (simp add: healthy_reads_def)
  have b: "(0::int) < now healthy_reads" by (simp add: healthy_reads_def)
  have r: "real_of_int (bytes_sent ?io - bytes_sent io_zero) / total_seconds (now healthy_reads - 0) = 3000"
    by (simp add: total_seconds_def healthy_reads_def io_zero_def)
  from first_tick_has_rate [OF front_reads_ok_healthy a, of 0 io_zero] b
  have c1: "net_up_label (snd (update_stats healthy_reads (init io_zero 0))) =
      format_speed (real_of_int (bytes_sent ?io - bytes_sent io_zero) /
        total_seconds (now healthy_reads - 0))" by blast
  have a': "front_reads_ok ?late" by (simp add: front_reads_ok_def healthy_reads_def)
  have b': "net_io_counters ?late = Inr ?io" by (simp add: healthy_reads_def)
  have le: "now ?late \<le> 0" by simp
  from first_tick_has_rate [OF a' b', of 0 io_zero] le
  have c2: "net_up_label (snd (update_stats ?late (init io_zero 0))) = [Lit ''0 B/s'']" by blast
  show ?thesis by (simp only: c1 c2 r simp_thms)
qed

text \<open>
  Claim C2 as stated fails: one second after construction, the first tick displays a rate
  and pushes it to the history.
\<close>

theorem first_tick_rate_is_present:
  "net_up_label (snd (update_stats healthy_reads (init io_zero 0))) =
     [Fixed 1 (3000 / 1024), Lit '' KB/s''] \<and>
   last (items (net_up_history (snd (update_stats healthy_reads (init io_zero 0))))) = 3000 \<and>
   net_up_label (init io_zero 0) = [Lit ''0 B/s''] \<and>
   last (items (net_up_history (init io_zero 0))) = 0"
proof -
  let ?m = "init io_zero 0"
  let ?io = "\<lparr> bytes_sent = 3000, bytes_recv = 5000 \<rparr>"
  have a: "net_io_counters healthy_reads = Inr ?io" by (simp add: healthy_reads_def)
  have b: "0 < total_seconds (now healthy_reads - last_update ?m)"
    by (simp add: total_seconds_def healthy_reads_def init_def)
  have up: "real_of_int (bytes_sent ?io - bytes_sent (last_net_io ?m)) /
      total_seconds (now healthy_reads - last_update ?m) = 3000"
    by (simp add: total_seconds_def healthy_reads_def init_def io_zero_def)
  have h: "net_up_history (snd (update_stats healthy_reads ?m)) = deque_append (net_up_history ?m) 3000"
    by (simp only: update_stats_positive(3) [OF front_reads_ok_healthy a b] up)
  have l: "net_up_label (snd (update_stats healthy_reads ?m)) = format_speed 3000"
    by (simp only: update_stats_positive(5) [OF front_reads_ok_healthy a b] up)
  have "last (items (net_up_history (snd (update_stats healthy_reads ?m)))) = 3000"
    by (simp only: h last_history_after_append [OF histories_full_init])
  moreover have "format_speed 3000 = [Fixed 1 (3000 / 1024), Lit '' KB/s'']"
    by (simp add: format_speed_def)
  moreover have "net_up_label ?m = [Lit ''0 B/s'']" by (simp add: init_def)
  moreover have "last (items (net_up_history ?m)) = 0" by (simp add: init_def deque_new_def)
  ultimately show ?thesis using l by simp
qed

subsection \<open>Failing reads\<close>

lemma late_sections_keep_cpu_mem_history:
  "cpu_history (snd (gpu_section os m)) = cpu_history m \<and>
   mem_history (snd (gpu_section os m)) = mem_history m"
  "cpu_history (snd (net_section os m)) = cpu_history m \<and>
   mem_history (snd (net_section os m)) = mem_history m"
  "cpu_history (snd (swap_section os m)) = cpu_history m \<and>
   mem_history (snd (swap_section os m)) = mem_history m"
  "cpu_history (snd (proc_count_section os m)) = cpu_history m \<and>
   mem_history (snd (proc_count_section os m)) = mem_history m"
  "cpu_history (snd (battery_section os m)) = cpu_history m \<and>
   mem_history (snd (battery_section os m)) = mem_history m"
  "cpu_history (snd (top_proc_section os m)) = cpu_history m \<and>
   mem_history (snd (top_proc_section os m)) = mem_history m"
  "cpu_history (snd (footer_section os m)) = cpu_history m \<and>
   mem_history (snd (footer_section os m)) = mem_history m"
  by (simp_all add: gpu_section_def net_section_def swap_section_def proc_count_section_def
      battery_section_def top_proc_section_def footer_section_def draw_network_graph_def Let_def
      split: sum.split option.split prod.split)

lemma histories_after_memory:
  "cpu_history (snd (then_section (gpu_section os)
      (then_section (net_section os)
      (then_section (swap_section os)
      (then_section (proc_count_section os)
      (then_section (battery_section os)
      (then_section (top_proc_section os) (footer_section os)))))) m)) = cpu_history m \<and>
   mem_history (snd (then_section (gpu_section os)
      (then_section (net_section os)
      (then_section (swap_section os)
      (then_section (proc_count_section os)
      (then_section (battery_section os)
      (then_section (top_proc_section os) (footer_section os)))))) m)) = mem_history m"
  by (intro then_section_rel
        [where R = "\<lambda>a b. cpu_history b = cpu_history a \<and> mem_history b = mem_history a"])
     (simp_all add: late_sections_keep_cpu_mem_history)

lemma update_stats_fields:
  "cpu_history (snd (update_stats os m)) = cpu_history (snd (stats_body os m))"
  "mem_history (snd (update_stats os m)) = mem_history (snd (stats_body os m))"
  "battery_label (snd (update_stats os m)) = battery_label (snd (stats_body os m))"
  by (cases "stats_body os m"; simp add: update_stats_def root_after_def split: option.split)+

lemma cpu_mem_captured:
  assumes "cpu_percent os = Inr c" "cpu_freq os = Inr fq" "cpu_count os = Inr n"
    "virtual_memory os = Inr vm"
  shows "cpu_history (snd (update_stats os m)) = deque_append (cpu_history m) c"
    and "mem_history (snd (update_stats os m)) = deque_append (mem_history m) (vm_percent vm)"
proof -
  have ok: "front_reads_ok os" using assms by (simp add: front_reads_ok_def)
  let ?m1 = "snd (cpu_section os m)"
  let ?m2 = "snd (mem_section os ?m1)"
  have m1: "cpu_history ?m1 = deque_append (cpu_history m) c" "mem_history ?m1 = mem_history m"
    using assms by (simp_all add: cpu_section_def Let_def split: option.split)
  have m2: "cpu_history ?m2 = cpu_history ?m1"
    "mem_history ?m2 = deque_append (mem_history ?m1) (vm_percent vm)"
    using assms by (simp_all add: mem_section_def)
  have "stats_body os m =
      then_section (gpu_section os)
        (then_section (net_section os)
        (then_section (swap_section os)
        (then_section (proc_count_section os)
        (then_section (battery_section os)
        (then_section (top_proc_section os) (footer_section os)))))) ?m2"
    unfolding stats_body_def
    by (simp only: fst_then_section [OF fst_cpu_section [OF ok]]
        fst_then_section [OF fst_mem_section [OF ok]])
  then have "cpu_history (snd (stats_body os m)) = cpu_history ?m2"
    and "mem_history (snd (stats_body os m)) = mem_history ?m2"
    by (simp_all only: histories_after_memory)
  then show "cpu_history (snd (update_stats os m)) = deque_append (cpu_history m) c"
    and "mem_history (snd (update_stats os m)) = deque_append (mem_history m) (vm_percent vm)"
    by (simp_all only: update_stats_fields m1 m2)
qed

lemma sections_ignore_battery:
  "cpu_section (os\<lparr> sensors_battery := b \<rparr>) = cpu_section os"
  "mem_section (os\<lparr> sensors_battery := b \<rparr>) = mem_section os"
  "gpu_section (os\<lparr> sensors_battery := b \<rparr>) = gpu_section os"
  "net_section (os\<lparr> sensors_battery := b \<rparr>) = net_section os"
  "swap_section (os\<lparr> sensors_battery := b \<rparr>) = swap_section os"
  "proc_count_section (os\<lparr> sensors_battery := b \<rparr>) = proc_count_section os"
  "top_proc_section (os\<lparr> sensors_battery := b \<rparr>) = top_proc_section os"
  "footer_section (os\<lparr> sensors_battery := b \<rparr>) = footer_section os"
  by (simp_all add: fun_eq_iff cpu_section_def mem_section_def gpu_section_def get_gpu_usage_def
      net_section_def swap_section_def proc_count_section_def top_proc_section_def
      footer_section_def Let_def
      cong: sum.case_cong option.case_cong prod.case_cong if_cong)

lemma top_proc_section_battery_label:
  "top_proc_section os (m\<lparr> battery_label := x \<rparr>) =
     (fst (top_proc_section os m), (snd (top_proc_section os m))\<lparr> battery_label := x \<rparr>)"
  by (simp add: top_proc_section_def split: sum.split option.split)

lemma footer_section_battery_label:
  "footer_section os (m\<lparr> battery_label := x \<rparr>) =
     (fst (footer_section os m), (snd (footer_section os m))\<lparr> battery_label := x \<rparr>)"
  by (simp add: footer_section_def Let_def split: sum.split)

lemma after_battery_battery_label:
  "then_section (top_proc_section os) (footer_section os) (m\<lparr> battery_label := x \<rparr>) =
     (fst (then_section (top_proc_section os) (footer_section os) m),
      (snd (then_section (top_proc_section os) (footer_section os) m))\<lparr> battery_label := x \<rparr>)"
proof -
  have a: "then_section (top_proc_section os) (footer_section os) m =
      footer_section os (snd (top_proc_section os m))"
    by (rule fst_then_section [OF fst_top_proc_section])
  have "fst (top_proc_section os (m\<lparr> battery_label := x \<rparr>)) = None"
    by (rule fst_top_proc_section)
  then have "then_section (top_proc_section os) (footer_section os) (m\<lparr> battery_label := x \<rparr>) =
      footer_section os (snd (top_proc_section os (m\<lparr> battery_label := x \<rparr>)))"
    by (rule fst_then_section)
  also have "\<dots> = footer_section os ((snd (top_proc_section os m))\<lparr> battery_label := x \<rparr>)"
    by (simp add: top_proc_section_battery_label)
  finally show ?thesis by (simp only: a footer_section_battery_label)
qed

lemma stats_body_at_battery:
  assumes "front_reads_ok os" "net_io_counters os = Inr io"
  shows "\<exists>m6. \<forall>b. stats_body (os\<lparr> sensors_battery := b \<rparr>) m =
           then_section (battery_section (os\<lparr> sensors_battery := b \<rparr>))
             (then_section (top_proc_section os) (footer_section os)) m6"
proof -
  let ?m1 = "snd (cpu_section os m)"
  let ?m2 = "snd (mem_section os ?m1)"
  let ?m3 = "snd (gpu_section os ?m2)"
  let ?m4 = "snd (net_section os ?m3)"
  let ?m5 = "snd (swap_section os ?m4)"
  let ?m6 = "snd (proc_count_section os ?m5)"
  have net: "\<And>m. fst (net_section os m) = None" using assms(2) by (simp add: fst_net_section)
  have "stats_body (os\<lparr> sensors_battery := b \<rparr>) m =
           then_section (battery_section (os\<lparr> sensors_battery := b \<rparr>))
             (then_section (top_proc_section os) (footer_section os)) ?m6" for b
    unfolding stats_body_def sections_ignore_battery
    by (simp only: fst_then_section [OF fst_cpu_section [OF assms(1)]]
        fst_then_section [OF fst_mem_section [OF assms(1)]]
        fst_then_section [OF fst_gpu_section] fst_then_section [OF net]
        fst_then_section [OF fst_swap_section] fst_then_section [OF fst_proc_count_section])
  then show ?thesis by blast
qed

lemma update_stats_battery_label:
  assumes "stats_body os m = (r, S\<lparr> battery_label := x \<rparr>)"
    and "stats_body os' m = (r, S\<lparr> battery_label := y \<rparr>)"
  shows "update_stats os m =
      (fst (update_stats os' m), (snd (update_stats os' m))\<lparr> battery_label := x \<rparr>)"
  using assms by (cases r) (simp_all add: update_stats_def root_after_def)

lemma battery_failure_is_local:
  assumes "front_reads_ok os" "net_io_counters os = Inr io" "sensors_battery os = Inl e"
  shows "update_stats os m =
      (fst (update_stats (os\<lparr> sensors_battery := Inr None \<rparr>) m),
       (snd (update_stats (os\<lparr> sensors_battery := Inr None \<rparr>) m))
         \<lparr> battery_label := [Lit ''N/A''] \<rparr>)"
proof -
  let ?T = "then_section (top_proc_section os) (footer_section os)"
  from stats_body_at_battery [OF assms(1,2)] obtain m6 where
    at: "\<And>b. stats_body (os\<lparr> sensors_battery := b \<rparr>) m =
           then_section (battery_section (os\<lparr> sensors_battery := b \<rparr>)) ?T m6" by blast
  have same: "os\<lparr> sensors_battery := Inl e \<rparr> = os" using assms(3) by simp
  have bad: "battery_section os m6 = (None, m6\<lparr> battery_label := [Lit ''N/A''] \<rparr>)"
    using assms(3) by (simp add: battery_section_def)
  have good: "battery_section (os\<lparr> sensors_battery := Inr None \<rparr>) m6 =
      (None, m6\<lparr> battery_label := [Lit ''AC''] \<rparr>)"
    by (simp add: battery_section_def)
  have "stats_body os m = then_section (battery_section os) ?T m6"
    using at [of "Inl e"] by (simp only: same)
  then have a: "stats_body os m = (fst (?T m6), (snd (?T m6))\<lparr> battery_label := [Lit ''N/A''] \<rparr>)"
    by (simp only: then_section_go [where f = "battery_section os" and m = m6, OF bad] after_battery_battery_label)
  have b: "stats_body (os\<lparr> sensors_battery := Inr None \<rparr>) m =
      (fst (?T m6), (snd (?T m6))\<lparr> battery_label := [Lit ''AC''] \<rparr>)"
    by (simp only: at [of "Inr None"] then_section_go [where f = "battery_section (os\<lparr> sensors_battery := Inr None \<rparr>)" and m = m6, OF good] after_battery_battery_label)
  from a b show ?thesis by (rule update_stats_battery_label)
qed

lemma swap_failure_keeps_label:
  assumes "swap_memory os = Inl e"
  shows "swap_label (snd (update_stats os m)) = swap_label m"
proof (rule update_stats_rel [where R = "\<lambda>a b. swap_label b = swap_label a"])
  show "\<And>m. swap_label (snd (stats_body os m)) = swap_label m"
  proof (rule stats_body_rel [where R = "\<lambda>a b. swap_label b = swap_label a"])
    show "\<And>m. swap_label (snd (swap_section os m)) = swap_label m"
      using assms by (simp add: swap_section_def)
  qed (simp_all add: cpu_section_def mem_section_def gpu_section_def net_section_def
      proc_count_section_def battery_section_def top_proc_section_def footer_section_def
      draw_network_graph_def Let_def split: sum.split option.split prod.split)
qed simp_all

lemma pids_failure_keeps_label:
  assumes "pids os = Inl e"
  shows "proc_count_label (snd (update_stats os m)) = proc_count_label m"
proof (rule update_stats_rel [where R = "\<lambda>a b. proc_count_label b = proc_count_label a"])
  show "\<And>m. proc_count_label (snd (stats_body os m)) = proc_count_label m"
  proof (rule stats_body_rel [where R = "\<lambda>a b. proc_count_label b = proc_count_label a"])
    show "\<And>m. proc_count_label (snd (proc_count_section os m)) = proc_count_label m"
      using assms by (simp add: proc_count_section_def)
  qed (simp_all add: cpu_section_def mem_section_def gpu_section_def net_section_def
      swap_section_def battery_section_def top_proc_section_def footer_section_def
      draw_network_graph_def Let_def split: sum.split option.split prod.split)
qed simp_all

lemma cpu_failure_aborts:
  assumes "cpu_percent os = Inl e"
  shows "update_stats os m =
      (if is_Exception e then
         (None, root_after 1000 Update_stats
            (m\<lparr> stdout := stdout m @ [[Lit ''Error updating stats: '', ExnRepr e]] \<rparr>))
       else (Some e, m))"
proof -
  have "stats_body os m = (Some e, m)" using assms by (rule cpu_percent_raises)
  then show ?thesis by (simp add: update_stats_def)
qed

text \<open>
  Claim C1, as amended. Only the reads of the live-stats part are guarded one by one.
  When the battery read raises on a tick that reaches it, the tick is not aborted: the
  battery label shows the sentinel \<open>N/A\<close> and every other field (CPU and memory
  histories, network sample and timestamp, all labels) is exactly what it is on the same
  tick of a host whose battery read returns. When the swap read or the process-count
  read raises, its label keeps its previous text; there is no sentinel for it. An error
  of the CPU-percent read is not handled per field: it ends the body of the tick at
  once and nothing is captured; an error that derives from \<open>Exception\<close> is printed and the
  next tick is scheduled, any other exception leaves the call.
\<close>

theorem only_live_stats_failures_are_local:
  "(cpu_percent os = Inr c \<and> cpu_freq os = Inr fq \<and> cpu_count os = Inr n \<and>
    virtual_memory os = Inr vm \<and> net_io_counters os = Inr io \<and>
    sensors_battery os = Inl e \<longrightarrow>
      battery_label (snd (update_stats os m)) = [Lit ''N/A''] \<and>
      cpu_history (snd (update_stats os m)) = deque_append (cpu_history m) c \<and>
      mem_history (snd (update_stats os m)) = deque_append (mem_history m) (vm_percent vm) \<and>
      last_net_io (snd (update_stats os m)) = io \<and>
      last_update (snd (update_stats os m)) = now os \<and>
      update_stats os m =
        (fst (update_stats (os\<lparr> sensors_battery := Inr None \<rparr>) m),
         (snd (update_stats (os\<lparr> sensors_battery := Inr None \<rparr>) m))
           \<lparr> battery_label := [Lit ''N/A''] \<rparr>)) \<and>
   (swap_memory os = Inl e \<longrightarrow> swap_label (snd (update_stats os m)) = swap_label m) \<and>
   (pids os = Inl e \<longrightarrow> proc_count_label (snd (update_stats os m)) = proc_count_label m) \<and>
   (cpu_percent os = Inl e \<longrightarrow>
      update_stats os m =
        (if is_Exception e then
           (None, root_after 1000 Update_stats
              (m\<lparr> stdout := stdout m @ [[Lit ''Error updating stats: '', ExnRepr e]] \<rparr>))
         else (Some e, m)))"
proof -
  have battery: "battery_label (snd (update_stats os m)) = [Lit ''N/A''] \<and>
      cpu_history (snd (update_stats os m)) = deque_append (cpu_history m) c \<and>
      mem_history (snd (update_stats os m)) = deque_append (mem_history m) (vm_percent vm) \<and>
      last_net_io (snd (update_stats os m)) = io \<and>
      last_update (snd (update_stats os m)) = now os \<and>
      update_stats os m =
        (fst (update_stats (os\<lparr> sensors_battery := Inr None \<rparr>) m),
         (snd (update_stats (os\<lparr> sensors_battery := Inr None \<rparr>) m))
           \<lparr> battery_label := [Lit ''N/A''] \<rparr>)"
    if h: "cpu_percent os = Inr c \<and> cpu_freq os = Inr fq \<and> cpu_count os = Inr n \<and>
      virtual_memory os = Inr vm \<and> net_io_counters os = Inr io \<and> sensors_battery os = Inl e"
  proof -
    from h have ok: "front_reads_ok os" by (simp add: front_reads_ok_def)
    from h have io: "net_io_counters os = Inr io" and bat: "sensors_battery os = Inl e"
      by simp_all
    have eq: "update_stats os m =
        (fst (update_stats (os\<lparr> sensors_battery := Inr None \<rparr>) m),
         (snd (update_stats (os\<lparr> sensors_battery := Inr None \<rparr>) m))
           \<lparr> battery_label := [Lit ''N/A''] \<rparr>)"
      using ok io bat by (rule battery_failure_is_local)
    then have "snd (update_stats os m) =
        (snd (update_stats (os\<lparr> sensors_battery := Inr None \<rparr>) m))
          \<lparr> battery_label := [Lit ''N/A''] \<rparr>"
      by simp
    then have "battery_label (snd (update_stats os m)) =
        battery_label ((snd (update_stats (os\<lparr> sensors_battery := Inr None \<rparr>) m))
          \<lparr> battery_label := [Lit ''N/A''] \<rparr>)"
      by (rule arg_cong)
    then have label: "battery_label (snd (update_stats os m)) = [Lit ''N/A'']" by simp
    have hist: "cpu_history (snd (update_stats os m)) = deque_append (cpu_history m) c"
      "mem_history (snd (update_stats os m)) = deque_append (mem_history m) (vm_percent vm)"
      using h by (simp_all add: cpu_mem_captured)
    have net: "last_net_io (snd (update_stats os m)) = io \<and> last_update (snd (update_stats os m)) = now os"
    proof (cases "0 < total_seconds (now os - last_update m)")
      case True
      then show ?thesis using update_stats_positive(1,2) [OF ok io True] by simp
    next
      case False
      then have le: "total_seconds (now os - last_update m) \<le> 0" by simp
      show ?thesis using update_stats_nonpositive(1,2) [OF ok io le] by simp
    qed
    show ?thesis using label hist net eq by blast
  qed
  moreover have "swap_memory os = Inl e \<longrightarrow> swap_label (snd (update_stats os m)) = swap_label m"
    by (simp add: swap_failure_keeps_label)
  moreover have "pids os = Inl e \<longrightarrow> proc_count_label (snd (update_stats os m)) = proc_count_label m"
    by (simp add: pids_failure_keeps_label)
  moreover have "cpu_percent os = Inl e \<longrightarrow>
      update_stats os m =
        (if is_Exception e then
           (None, root_after 1000 Update_stats
              (m\<lparr> stdout := stdout m @ [[Lit ''Error updating stats: '', ExnRepr e]] \<rparr>))
         else (Some e, m))"
    using cpu_failure_aborts [of os e m] by blast
  ultimately show ?thesis by blast
qed

theorem only_live_stats_failures_are_local_witness:
  "battery_label (snd (update_stats (healthy_reads\<lparr> sensors_battery := Inl OSError \<rparr>) (init io_zero 0))) =
     [Lit ''N/A''] \<and>
   cpu_history (snd (update_stats (healthy_reads\<lparr> sensors_battery := Inl OSError \<rparr>) (init io_zero 0))) =
     deque_append (cpu_history (init io_zero 0)) 12.5 \<and>
   mem_history (snd (update_stats (healthy_reads\<lparr> sensors_battery := Inl OSError \<rparr>) (init io_zero 0))) =
     deque_append (mem_history (init io_zero 0)) 50 \<and>
   swap_label (snd (update_stats (healthy_reads\<lparr> swap_memory := Inl OSError \<rparr>) (init io_zero 0))) =
     [Lit ''0%''] \<and>
   stdout (snd (update_stats (healthy_reads\<lparr> cpu_percent := Inl OSError \<rparr>) (init io_zero 0))) =
     [[Lit ''Error updating stats: '', ExnRepr OSError]]"
proof -
  let ?bat = "healthy_reads\<lparr> sensors_battery := Inl OSError \<rparr>"
  let ?swap = "healthy_reads\<lparr> swap_memory := Inl OSError \<rparr>"
  let ?cpu = "healthy_reads\<lparr> cpu_percent := Inl OSError \<rparr>"
  let ?vm = "\<lparr> vm_total = 16000, vm_used = 8000, vm_percent = 50 \<rparr>"
  have h: "cpu_percent ?bat = Inr 12.5 \<and> cpu_freq ?bat = Inr (Some 2400) \<and>
      cpu_count ?bat = Inr (Some 8) \<and> virtual_memory ?bat = Inr ?vm \<and>
      net_io_counters ?bat = Inr \<lparr> bytes_sent = 3000, bytes_recv = 5000 \<rparr> \<and>
      sensors_battery ?bat = Inl OSError"
    by (simp add: healthy_reads_def)
  note t = only_live_stats_failures_are_local [of ?bat "12.5" "Some 2400" "Some 8" ?vm
      "\<lparr> bytes_sent = 3000, bytes_recv = 5000 \<rparr>" OSError "init io_zero 0"]
  from t h have a: "battery_label (snd (update_stats ?bat (init io_zero 0))) = [Lit ''N/A'']" by blast
  from t h have b: "cpu_history (snd (update_stats ?bat (init io_zero 0))) =
      deque_append (cpu_history (init io_zero 0)) 12.5" by blast
  from t h have "mem_history (snd (update_stats ?bat (init io_zero 0))) =
      deque_append (mem_history (init io_zero 0)) (vm_percent ?vm)" by blast
  then have c: "mem_history (snd (update_stats ?bat (init io_zero 0))) =
      deque_append (mem_history (init io_zero 0)) 50" by simp
  have "swap_memory ?swap = Inl OSError" by simp
  with only_live_stats_failures_are_local [of ?swap _ _ _ _ _ OSError "init io_zero 0"]
  have "swap_label (snd (update_stats ?swap (init io_zero 0))) = swap_label (init io_zero 0)" by blast
  then have d: "swap_label (snd (update_stats ?swap (init io_zero 0))) = [Lit ''0%'']"
    by (simp add: init_def)
  have "cpu_percent ?cpu = Inl OSError" by simp
  with only_live_stats_failures_are_local [of ?cpu _ _ _ _ _ OSError "init io_zero 0"]
  have "update_stats ?cpu (init io_zero 0) =
      (if is_Exception OSError then
         (None, root_after 1000 Update_stats
            ((init io_zero 0)\<lparr> stdout := stdout (init io_zero 0) @
                [[Lit ''Error updating stats: '', ExnRepr OSError]] \<rparr>))
       else (Some OSError, init io_zero 0))" by blast
  then have e: "stdout (snd (update_stats ?cpu (init io_zero 0))) =
      [[Lit ''Error updating stats: '', ExnRepr OSError]]"
    by (simp add: root_after_def init_def)
  show ?thesis using a b c d e by blast
qed

text \<open>
  Claim C1 as stated fails: when the CPU-percent read raises, the memory read, which
  would have returned 50 percent, is never made. The memory label, the memory history and
  the stored timestamp stay as they were, and the CPU label gets no sentinel. The same
  tick with a healthy CPU read captures them.
\<close>

theorem cpu_failure_loses_the_other_fields:
  "mem_value_label (snd (update_stats (healthy_reads\<lparr> cpu_percent := Inl OSError \<rparr>) (init io_zero 0))) =
     [Lit ''0%''] \<and>
   mem_history (snd (update_stats (healthy_reads\<lparr> cpu_percent := Inl OSError \<rparr>) (init io_zero 0))) =
     mem_history (init io_zero 0) \<and>
   last_update (snd (update_stats (healthy_reads\<lparr> cpu_percent := Inl OSError \<rparr>) (init io_zero 0))) = 0 \<and>
   cpu_value_label (snd (update_stats (healthy_reads\<lparr> cpu_percent := Inl OSError \<rparr>) (init io_zero 0))) =
     [Lit ''0%''] \<and>
   virtual_memory (healthy_reads\<lparr> cpu_percent := Inl OSError \<rparr>) =
     Inr \<lparr> vm_total = 16000, vm_used = 8000, vm_percent = 50 \<rparr> \<and>
   mem_value_label (snd (update_stats healthy_reads (init io_zero 0))) = [Fixed 1 50, Lit ''%''] \<and>
   last_update (snd (update_stats healthy_reads (init io_zero 0))) = 1000000"
proof -
  let ?cpu = "healthy_reads\<lparr> cpu_percent := Inl OSError \<rparr>"
  have "cpu_percent ?cpu = Inl OSError" by simp
  then have "update_stats ?cpu (init io_zero 0) =
      (if is_Exception OSError then
         (None, root_after 1000 Update_stats
            ((init io_zero 0)\<lparr> stdout := stdout (init io_zero 0) @
                [[Lit ''Error updating stats: '', ExnRepr OSError]] \<rparr>))
       else (Some OSError, init io_zero 0))"
    by (rule cpu_failure_aborts)
  then have bad: "mem_value_label (snd (update_stats ?cpu (init io_zero 0))) = [Lit ''0%'']"
    "mem_history (snd (update_stats ?cpu (init io_zero 0))) = mem_history (init io_zero 0)"
    "last_update (snd (update_stats ?cpu (init io_zero 0))) = 0"
    "cpu_value_label (snd (update_stats ?cpu (init io_zero 0))) = [Lit ''0%'']"
    by (simp_all add: root_after_def init_def)
  have vm: "virtual_memory ?cpu = Inr \<lparr> vm_total = 16000, vm_used = 8000, vm_percent = 50 \<rparr>"
    by (simp add: healthy_reads_def)
  have good: "mem_value_label (snd (update_stats healthy_reads (init io_zero 0))) = [Fixed 1 50, Lit ''%'']"
    "last_update (snd (update_stats healthy_reads (init io_zero 0))) = 1000000"
    by (simp_all add: update_stats_def stats_body_def then_section_def cpu_section_def
        mem_section_def gpu_section_def get_gpu_usage_def net_section_def swap_section_def
        proc_count_section_def battery_section_def top_proc_section_def footer_section_def
        root_after_def draw_network_graph_def truediv_def total_seconds_def
        top_cpu_process_def sorted_reverse_def cpu_key_def
        healthy_reads_def init_def io_zero_def Let_def)
  show ?thesis using bad vm good by blast
qed

end
